theory Spec2Isabelle
  imports Complex_Main
begin

section \<open>Python strings\<close>

text \<open>
  A Python \<open>str\<close> is modelled as a \<open>string\<close>; one \<open>char\<close> stands for one character
  (code points below 256). \<open>str.strip()\<close> removes the characters for which
  \<open>str.isspace()\<close> holds; below 256 these are 9-13, 28-32, 133 and 160.
\<close>

definition py_isspace :: "char \<Rightarrow> bool" where
  "py_isspace c =
     (let n = (of_char c :: nat)
      in (9 \<le> n \<and> n \<le> 13) \<or> (28 \<le> n \<and> n \<le> 32) \<or> n = 133 \<or> n = 160)"

definition strip :: "string \<Rightarrow> string" where
  "strip s = rev (dropWhile py_isspace (rev (dropWhile py_isspace s)))"

text \<open>\<open>s.split(",")\<close>: always at least one piece; \<open>"".split(",") == [""]\<close>.\<close>

fun split_comma :: "string \<Rightarrow> string list" where
  "split_comma [] = [[]]"
| "split_comma (c # cs) =
     (if c = CHR '','' then [] # split_comma cs
      else (case split_comma cs of
              [] \<Rightarrow> [[c]]
            | p # ps \<Rightarrow> (c # p) # ps))"

text \<open>\<open>",".join(xs)\<close>.\<close>

fun join_comma :: "string list \<Rightarrow> string" where
  "join_comma [] = []"
| "join_comma [x] = x"
| "join_comma (x # y # ys) = x @ '','' @ join_comma (y # ys)"

section \<open>Exceptions, events and the browser driver\<close>

text \<open>
  Every f-string of \<open>browser.py\<close> is one constructor of \<open>message\<close>, carrying the values
  it interpolates; \<open>Text\<close> is a plain string (a literal, a step's \<open>reason\<close>, or the text of
  an exception raised by the driver).
\<close>

datatype message =
    Text string
  | Failed_to_launch message
  | Unknown_action "string option"
  | Error_in "string option" message
  | Browser_error message bool
  | Subprocess_error
  | Navigating_to "string option"
  | Loaded string
  | Navigation_timeout
  | Element_not_found string
  | Input_not_found string
  | Typed_value string
  | Pressed_Enter
  | Clicked_msg
  | Filtering "int option" "int option"
  | Rating_plus "rat option"
  | Extracting_top int
  | Filtered_restaurants nat rat
  | Filtered_items nat
  | No_valid_products
  | Extracted_valid nat
  | Extraction_error message string
  | Could_not_convert string
  | Invalid_literal string
  | No_attribute string
  | Filled_field string
  | Field_not_found string
  | Form_submitted

text \<open>
  The driver raises Playwright's \<open>TimeoutError\<close>, \<open>NotImplementedError\<close> (a missing
  subprocess transport) or some other \<open>Exception\<close>; the handlers raise \<open>Exception\<close>
  themselves. The argument is \<open>str(e)\<close>. Exceptions outside \<open>Exception\<close>
  (cancellation, interrupts) are not modelled.
\<close>

datatype exn =
    PlaywrightTimeoutError message
  | NotImplementedError message
  | Exception message

fun str_of_exn :: "exn \<Rightarrow> message" where
  "str_of_exn (PlaywrightTimeoutError m) = m"
| "str_of_exn (NotImplementedError m) = m"
| "str_of_exn (Exception m) = m"

text \<open>An extracted item: the dictionary keys \<open>name\<close>, \<open>price\<close>, \<open>rating\<close>, \<open>url\<close>;
  \<open>None\<close> is an absent key, the values are strings.\<close>

record item =
  name :: "string option"
  price :: "string option"
  rating :: "string option"
  url :: "string option"

text \<open>
  The dictionaries passed to \<open>send_event\<close>, by their \<open>type\<close> key:
  \<open>status\<close> (message, status), \<open>action_start\<close> (action, step, total_steps),
  \<open>action\<close> (action, target when there is one, message), the \<open>action\<close> event that
  closes an extraction (message, count, preview), \<open>action_complete\<close> (action),
  \<open>warning\<close> and \<open>error\<close> (message), and the \<open>error\<close> events with
  \<open>status: failed\<close> that end a run.
\<close>

datatype event =
    Status message string
  | Action_start "string option" nat nat
  | Action string "string option" message
  | Action_extracted message nat "item list"
  | Action_complete "string option"
  | Warning message
  | Error message
  | Error_failed message

datatype script = Zomato_script | Flipkart_script

text \<open>What \<open>page.click\<close> is given: a selector text, or one of the two selectors that the
  rating filter builds around the threshold (\<open>[aria-label*='R star']\<close> and
  \<open>.rating-filter[data-rating='R']\<close>).\<close>

datatype selector = Css string | Star_label "rat option" | Data_rating "rat option"

text \<open>
  Everything a run does to the outside world, in order: an event sent, a sleep (seconds), a
  driver call with its arguments and whether it returned (\<open>True\<close>) or raised.
\<close>

datatype effect =
    Sent event
  | Slept nat
  | Goto "string option" string nat bool
  | Title bool
  | Wait_for_selector string int bool
  | Click selector "nat option" bool
  | Fill string string "nat option" bool
  | Type_text string string nat bool
  | Press string bool
  | Wait_for_load_state string nat bool
  | Evaluate script bool
  | Browser_closed

type_synonym history = "effect list"
type_synonym handle = nat

text \<open>
  The page is the environment: what a driver call answers may depend on everything that
  happened before it (the history), and is otherwise arbitrary.
\<close>

record page =
  goto_answer :: "history \<Rightarrow> string option \<Rightarrow> string \<Rightarrow> nat \<Rightarrow> exn option"
  title_answer :: "history \<Rightarrow> exn + string"
  wait_for_selector_answer :: "history \<Rightarrow> string \<Rightarrow> int \<Rightarrow> exn + handle"
  click_answer :: "history \<Rightarrow> selector \<Rightarrow> nat option \<Rightarrow> exn option"
  fill_answer :: "history \<Rightarrow> string \<Rightarrow> string \<Rightarrow> nat option \<Rightarrow> exn option"
  type_answer :: "history \<Rightarrow> string \<Rightarrow> string \<Rightarrow> nat \<Rightarrow> exn option"
  press_answer :: "history \<Rightarrow> string \<Rightarrow> exn option"
  wait_for_load_state_answer :: "history \<Rightarrow> string \<Rightarrow> nat \<Rightarrow> exn option"
  evaluate_answer :: "history \<Rightarrow> script \<Rightarrow> exn + item list"

definition send_event :: "event \<Rightarrow> history \<Rightarrow> history" where
  "send_event e h = h @ [Sent e]"

definition sleep :: "nat \<Rightarrow> history \<Rightarrow> history" where
  "sleep secs h = h @ [Slept secs]"

definition wait_for_selector ::
  "page \<Rightarrow> string \<Rightarrow> int \<Rightarrow> history \<Rightarrow> (exn + handle) \<times> history" where
  "wait_for_selector pg sel timeout h =
     (let r = wait_for_selector_answer pg h sel timeout
      in (r, h @ [Wait_for_selector sel timeout (\<not> isl r)]))"

section \<open>The selector resolver\<close>

definition MAX_RETRIES :: nat where
  "MAX_RETRIES = 3"

definition RETRY_DELAY :: nat where
  "RETRY_DELAY = 1"

text \<open>
  The inner loop \<open>for attempt in range(MAX_RETRIES)\<close> over the attempts still to make:
  a wait that returns ends the whole search with the element; a wait that raises (anything:
  the \<open>except\<close> is bare) sleeps \<open>RETRY_DELAY * (attempt + 1)\<close> unless the attempt was the
  last one.
\<close>

fun attempts ::
  "page \<Rightarrow> string \<Rightarrow> int \<Rightarrow> nat list \<Rightarrow> history \<Rightarrow> handle option \<times> history" where
  "attempts pg sel timeout [] h = (None, h)"
| "attempts pg sel timeout (attempt # rest) h =
     (case wait_for_selector pg sel timeout h of
        (Inr el, h1) \<Rightarrow> (Some el, h1)
      | (Inl e, h1) \<Rightarrow>
          attempts pg sel timeout rest
            (if attempt < MAX_RETRIES - 1 then sleep (RETRY_DELAY * (attempt + 1)) h1 else h1))"

text \<open>The outer loop over the candidates, in order.\<close>

fun try_selectors ::
  "page \<Rightarrow> int \<Rightarrow> string list \<Rightarrow> history \<Rightarrow> handle option \<times> history" where
  "try_selectors pg timeout [] h = (None, h)"
| "try_selectors pg timeout (sel # sels) h =
     (case attempts pg sel timeout [0..<MAX_RETRIES] h of
        (Some el, h1) \<Rightarrow> (Some el, h1)
      | (None, h1) \<Rightarrow> try_selectors pg timeout sels h1)"

definition find_selector_with_retry ::
  "page \<Rightarrow> string \<Rightarrow> int \<Rightarrow> history \<Rightarrow> handle option \<times> history" where
  "find_selector_with_retry pg selectors timeout h =
     try_selectors pg timeout (map strip (split_comma selectors)) h"

text \<open>What an exhausted candidate leaves in the history: three failed waits, a sleep of
  one second after the first and of two seconds after the second.\<close>

definition exhausted :: "int \<Rightarrow> string \<Rightarrow> effect list" where
  "exhausted timeout sel =
     [Wait_for_selector sel timeout False, Slept 1,
      Wait_for_selector sel timeout False, Slept 2,
      Wait_for_selector sel timeout False]"

text \<open>The waits of a history, in order: selector and whether the element was found.\<close>

fun waits :: "effect list \<Rightarrow> (string \<times> bool) list" where
  "waits [] = []"
| "waits (Wait_for_selector sel timeout ok # es) = (sel, ok) # waits es"
| "waits (e # es) = waits es"

definition failed_attempts :: "effect list \<Rightarrow> nat" where
  "failed_attempts es = length (filter (\<lambda>w. \<not> snd w) (waits es))"

text \<open>The effects of \<open>j\<close> failed attempts on a candidate that is then tried again:
  after the failed attempt number \<open>a\<close> (from 0) comes a sleep of \<open>RETRY_DELAY * (a + 1)\<close>.\<close>

definition retried :: "int \<Rightarrow> string \<Rightarrow> nat \<Rightarrow> effect list" where
  "retried timeout sel j =
     concat (map (\<lambda>a. [Wait_for_selector sel timeout False, Slept (RETRY_DELAY * (a + 1))])
                 [0..<j])"

section \<open>Example pages\<close>

text \<open>A page on which no element ever shows and every other driver call returns.\<close>

definition blank_page :: page where
  "blank_page =
     \<lparr> goto_answer = (\<lambda>h u w t. None),
       title_answer = (\<lambda>h. Inr ''Example''),
       wait_for_selector_answer = (\<lambda>h sel t. Inl (PlaywrightTimeoutError (Text ''Timeout''))),
       click_answer = (\<lambda>h sel t. None),
       fill_answer = (\<lambda>h sel v t. None),
       type_answer = (\<lambda>h sel v d. None),
       press_answer = (\<lambda>h k. None),
       wait_for_load_state_answer = (\<lambda>h st t. None),
       evaluate_answer = (\<lambda>h sc. Inr []) \<rparr>"

text \<open>A page on which exactly the elements of \<open>visible\<close> show, at once.\<close>

definition page_showing :: "string list \<Rightarrow> page" where
  "page_showing visible =
     blank_page\<lparr> wait_for_selector_answer :=
       (\<lambda>h sel t. if sel \<in> set visible then Inr 7
                  else Inl (PlaywrightTimeoutError (Text ''Timeout''))) \<rparr>"

text \<open>A page on which \<open>sel\<close> shows from the second wait for it on, and nothing else shows.\<close>

definition page_showing_late :: "string \<Rightarrow> page" where
  "page_showing_late late =
     blank_page\<lparr> wait_for_selector_answer :=
       (\<lambda>h sel t. if sel = late \<and> (late, False) \<in> set (waits h) then Inr 7
                  else Inl (PlaywrightTimeoutError (Text ''Timeout''))) \<rparr>"

section \<open>Steps\<close>

text \<open>
  A step of the plan is a dictionary; the handlers read it with \<open>step.get\<close>. Each key
  the handlers read is a field, \<open>None\<close> when the key is absent, with the type of the values
  the plan generator stores under it (strings, integers, a number for \<open>min_rating\<close>,
  booleans; \<open>False\<close> for an absent flag). The keys \<open>product_selector\<close> and \<open>fields\<close> are
  read by the extraction handler and never used, so they are left out.
\<close>

record step =
  step_action :: "string option"
  step_url :: "string option"
  step_wait_until :: "string option"
  step_selector :: "string option"
  step_timeout :: "int option"
  step_value :: "string option"
  step_clear_first :: bool
  step_wait_after :: "string option"
  step_max_price :: "int option"
  step_min_price :: "int option"
  step_min_rating :: "rat option"
  step_count :: "int option"
  step_site :: "string option"
  step_field_name :: "string option"
  step_generate_if_needed :: bool
  step_reason :: "string option"

section \<open>Python conversions\<close>

definition is_digit :: "char \<Rightarrow> bool" where
  "is_digit c = (48 \<le> (of_char c :: nat) \<and> (of_char c :: nat) \<le> 57)"

definition digit_val :: "char \<Rightarrow> nat" where
  "digit_val c = of_char c - 48"

definition nat_of_digits :: "string \<Rightarrow> nat" where
  "nat_of_digits s = foldl (\<lambda>a c. 10 * a + digit_val c) 0 s"

text \<open>The digits of an integer literal: digits, with single underscores between them.\<close>

fun digit_seq :: "string \<Rightarrow> bool" where
  "digit_seq [] = False"
| "digit_seq [c] = is_digit c"
| "digit_seq (c # d # r) =
     (is_digit c \<and> (if d = CHR ''_'' then digit_seq r else digit_seq (d # r)))"

text \<open>
  The whitespace that \<open>int\<close> and \<open>float\<close> drop around a number: the ASCII whitespace
  (9-13 and 32) and, of the other characters modelled, the next-line and the no-break space
  (133 and 160). The separators 28-31, which \<open>str.strip\<close> removes, are not dropped here.
\<close>

definition number_space :: "char \<Rightarrow> bool" where
  "number_space c =
     (let n = (of_char c :: nat) in (9 \<le> n \<and> n \<le> 13) \<or> n = 32 \<or> n = 133 \<or> n = 160)"

definition number_text :: "string \<Rightarrow> string" where
  "number_text s = rev (dropWhile number_space (rev (dropWhile number_space s)))"

text \<open>An optional sign and the digits of an integer literal; \<open>None\<close> when the text is not
  of that form.\<close>

definition signed_digits :: "string \<Rightarrow> int option" where
  "signed_digits t =
     (case t of
        [] \<Rightarrow> None
      | c # r \<Rightarrow>
          if c = CHR ''-'' then
            (if digit_seq r then Some (- int (nat_of_digits (filter is_digit r))) else None)
          else if c = CHR ''+'' then
            (if digit_seq r then Some (int (nat_of_digits (filter is_digit r))) else None)
          else
            (if digit_seq (c # r) then Some (int (nat_of_digits (filter is_digit (c # r))))
             else None))"

text \<open>
  \<open>int(s)\<close> for a string: surrounding whitespace is dropped, one sign is allowed, then the
  digits; \<open>None\<close> stands for \<open>ValueError\<close>. (The interpreter's limit on the number of
  digits, 4300 by default, is not modelled: beyond it \<open>int\<close> raises \<open>ValueError\<close> too.)
\<close>

definition py_int :: "string \<Rightarrow> int option" where
  "py_int s = signed_digits (number_text s)"

text \<open>\<open>str(n)\<close> for an integer.\<close>

definition digit_char :: "nat \<Rightarrow> char" where
  "digit_char n = ''0123456789'' ! n"

fun digits_of :: "nat \<Rightarrow> string" where
  "digits_of n =
     (if n < 10 then [digit_char n] else digits_of (n div 10) @ [digit_char (n mod 10)])"

definition py_str :: "int \<Rightarrow> string" where
  "py_str i = (if i < 0 then CHR ''-'' # digits_of (nat (- i)) else digits_of (nat i))"

text \<open>
  A Python \<open>float\<close>, which is also a JavaScript number: an IEEE 754 double. A finite double
  is held by its exact value, a rational; the sign of a zero is not kept (no comparison
  depends on it).
\<close>

datatype double = Finite rat | PlusInf | MinusInf | NaN

fun negate :: "double \<Rightarrow> double" where
  "negate (Finite x) = Finite (- x)"
| "negate PlusInf = MinusInf"
| "negate MinusInf = PlusInf"
| "negate NaN = NaN"

text \<open>\<open>x >= m\<close> and \<open>x <= m\<close> for a double \<open>x\<close> and a finite number \<open>m\<close>: every
  comparison with NaN is false.\<close>

fun double_ge :: "double \<Rightarrow> rat \<Rightarrow> bool" where
  "double_ge (Finite x) m = (m \<le> x)"
| "double_ge PlusInf m = True"
| "double_ge MinusInf m = False"
| "double_ge NaN m = False"

fun double_le :: "double \<Rightarrow> rat \<Rightarrow> bool" where
  "double_le (Finite x) m = (x \<le> m)"
| "double_le PlusInf m = False"
| "double_le MinusInf m = True"
| "double_le NaN m = False"

text \<open>The number of binary digits of a natural number.\<close>

fun bit_length :: "nat \<Rightarrow> nat" where
  "bit_length n = (if n = 0 then 0 else Suc (bit_length (n div 2)))"

declare bit_length.simps [simp del]

text \<open>
  The double nearest to \<open>p / q\<close> (for \<open>q > 0\<close>), ties going to the even significand, as
  both conversions round a decimal literal. \<open>e\<close> is the binary exponent of the quotient
  (\<open>2 ^ e \<le> p / q < 2 ^ (e + 1)\<close>), \<open>qe\<close> the exponent of the last place of a significand
  of 53 bits, not below that of the subnormal numbers; \<open>m\<close> is the quotient in units of
  \<open>2 ^ qe\<close>, rounded. A result of \<open>2 ^ 1024\<close> or more is infinity.
\<close>

definition round_ratio :: "nat \<Rightarrow> nat \<Rightarrow> double" where
  "round_ratio p q =
     (if p = 0 then Finite 0
      else
        (let d = int (bit_length p) - int (bit_length q);
             ge = (if 0 \<le> d then 2 ^ nat d * q \<le> p else q \<le> p * 2 ^ nat (- d));
             e = (if ge then d else d - 1);
             qe = max (e - 52) (- 1074);
             num = (if 0 \<le> qe then p else p * 2 ^ nat (- qe));
             den = (if 0 \<le> qe then q * 2 ^ nat qe else q);
             f = num div den;
             r = num mod den;
             m = (if 2 * r < den then f
                  else if den < 2 * r then f + 1
                  else if even f then f else f + 1);
             v = (if 0 \<le> qe then of_nat m * 2 ^ nat qe else of_nat m / 2 ^ nat (- qe))
         in if (2 :: rat) ^ 1024 \<le> v then PlusInf else Finite v))"

text \<open>A text read without regard to the case of its ASCII letters: does it spell the
  lower-case word \<open>w\<close>?\<close>

fun spells :: "string \<Rightarrow> string \<Rightarrow> bool" where
  "spells [] [] = True"
| "spells (a # w) (b # t) =
     ((b = a \<or> (of_char b :: nat) + 32 = of_char a) \<and> spells w t)"
| "spells w t = False"

definition exponent_mark :: "char \<Rightarrow> bool" where
  "exponent_mark c = (c = CHR ''e'' \<or> c = CHR ''E'')"

text \<open>
  \<open>float(s)\<close> for a string: surrounding whitespace is dropped, one sign is allowed, then
  \<open>inf\<close>, \<open>infinity\<close> or \<open>nan\<close> in any case, or a decimal literal: digits with at most
  one decimal point and at least one digit, single underscores between digits, and possibly an
  exponent. \<open>None\<close> stands for \<open>ValueError\<close>, which is what \<open>float\<close> raises on
  \<open>''4.5.''\<close>, \<open>''.''\<close> or \<open>''N/A''\<close>. The value is the double nearest to the decimal:
  \<open>float(''3.9999999999999999'')\<close> is \<open>4.0\<close>.
\<close>

definition unsigned_float :: "string \<Rightarrow> double option" where
  "unsigned_float t =
     (if spells ''inf'' t \<or> spells ''infinity'' t then Some PlusInf
      else if spells ''nan'' t then Some NaN
      else
        (let mant = takeWhile (\<lambda>c. \<not> exponent_mark c) t;
             ex = (case dropWhile (\<lambda>c. \<not> exponent_mark c) t of
                     [] \<Rightarrow> Some 0
                   | c # r \<Rightarrow> signed_digits r);
             ip = takeWhile (\<lambda>c. c \<noteq> CHR ''.'') mant;
             rest = dropWhile (\<lambda>c. c \<noteq> CHR ''.'') mant;
             fp = (case rest of [] \<Rightarrow> [] | d # f \<Rightarrow> f)
         in case ex of
              None \<Rightarrow> None
            | Some e \<Rightarrow>
                if (digit_seq ip \<or> (ip = [] \<and> rest \<noteq> [])) \<and> (digit_seq fp \<or> fp = []) \<and>
                   ip @ fp \<noteq> []
                then
                  (let n = nat_of_digits (filter is_digit (ip @ fp));
                       k = e - int (length (filter is_digit fp))
                   in Some (if 0 \<le> k then round_ratio (n * 10 ^ nat k) 1
                            else round_ratio n (10 ^ nat (- k))))
                else None))"

definition py_float :: "string \<Rightarrow> double option" where
  "py_float s =
     (case number_text s of
        [] \<Rightarrow> None
      | c # r \<Rightarrow>
          if c = CHR ''-'' then map_option negate (unsigned_float r)
          else if c = CHR ''+'' then unsigned_float r
          else unsigned_float (c # r))"

text \<open>\<open>xs[:n]\<close>: a negative \<open>n\<close> counts from the end.\<close>

definition py_slice_to :: "int \<Rightarrow> 'a list \<Rightarrow> 'a list" where
  "py_slice_to n xs =
     (if 0 \<le> n then take (nat n) xs else take (length xs - nat (- n)) xs)"

section \<open>Extraction: validation, filtering, truncation\<close>

definition title :: "page \<Rightarrow> history \<Rightarrow> (exn + string) \<times> history" where
  "title pg h = (let r = title_answer pg h in (r, h @ [Title (\<not> isl r)]))"

definition evaluate :: "page \<Rightarrow> script \<Rightarrow> history \<Rightarrow> (exn + item list) \<times> history" where
  "evaluate pg sc h = (let r = evaluate_answer pg h sc in (r, h @ [Evaluate sc (\<not> isl r)]))"

text \<open>\<open>product.get(key, "") or ""\<close>.\<close>

definition or_empty :: "string option \<Rightarrow> string" where
  "or_empty v = (case v of None \<Rightarrow> [] | Some s \<Rightarrow> s)"

text \<open>
  One round of the validation loop: \<open>None\<close> when the product is skipped, the product with
  its \<open>price\<close>, \<open>url\<close> and \<open>rating\<close> rewritten when it is appended. The price text is
  \<open>str(product.get("price", "0"))\<close> without its commas (the rupee sign the source also
  removes is beyond the characters modelled).
\<close>

definition validate_product :: "string \<Rightarrow> item \<Rightarrow> item option" where
  "validate_product site product =
     (let name_s = strip (or_empty (name product))
      in if name_s = [] \<or> length name_s < 3 then None
         else
           (let price_str = filter (\<lambda>c. c \<noteq> CHR '','')
                              (case price product of None \<Rightarrow> ''0'' | Some s \<Rightarrow> s)
            in case (if price_str = [] then Some 0 else py_int price_str) of
                 Some price_val \<Rightarrow>
                   if site = ''zomato'' then
                     Some (product\<lparr> price := Some (if price_val > 0 then py_str price_val else []),
                                    url := Some (or_empty (url product)),
                                    rating := Some (or_empty (rating product)) \<rparr>)
                   else if price_val \<ge> 100 then
                     Some (product\<lparr> price := Some (py_str price_val),
                                    url := Some (or_empty (url product)),
                                    rating := Some (or_empty (rating product)) \<rparr>)
                   else None
               | None \<Rightarrow>
                   if site = ''zomato'' then
                     Some (product\<lparr> price := Some [],
                                    url := Some (or_empty (url product)),
                                    rating := Some (or_empty (rating product)) \<rparr>)
                   else None))"

definition validate_products :: "string \<Rightarrow> item list \<Rightarrow> item list" where
  "validate_products site products = List.map_filter (validate_product site) products"

text \<open>The list comprehension of the rating filter, \<open>min_rating\<close> being the value of
  \<open>float(step.get("min_rating"))\<close>; a rating that \<open>float\<close> rejects raises.\<close>

fun filter_by_rating :: "rat \<Rightarrow> item list \<Rightarrow> exn + item list" where
  "filter_by_rating min_rating [] = Inr []"
| "filter_by_rating min_rating (p # ps) =
     (if or_empty (rating p) = [] then filter_by_rating min_rating ps
      else
        (case py_float (or_empty (rating p)) of
           None \<Rightarrow> Inl (Exception (Could_not_convert (or_empty (rating p))))
         | Some r \<Rightarrow>
             (case filter_by_rating min_rating ps of
                Inl e \<Rightarrow> Inl e
              | Inr kept \<Rightarrow> Inr (if double_ge r min_rating then p # kept else kept))))"

text \<open>The list comprehension of the price filter.\<close>

fun filter_by_price :: "int option \<Rightarrow> int option \<Rightarrow> item list \<Rightarrow> exn + item list" where
  "filter_by_price max_p min_p [] = Inr []"
| "filter_by_price max_p min_p (p # ps) =
     (if or_empty (price p) = [] then
        (case filter_by_price max_p min_p ps of Inl e \<Rightarrow> Inl e | Inr kept \<Rightarrow> Inr (p # kept))
      else
        (case py_int (or_empty (price p)) of
           None \<Rightarrow> Inl (Exception (Invalid_literal (or_empty (price p))))
         | Some v \<Rightarrow>
             (case filter_by_price max_p min_p ps of
                Inl e \<Rightarrow> Inl e
              | Inr kept \<Rightarrow>
                  Inr (if v \<le> (case max_p of None \<Rightarrow> 999999999
                                 | Some m \<Rightarrow> if m \<noteq> 0 then m else 999999999) \<and>
                          v \<ge> (case min_p of None \<Rightarrow> 0 | Some m \<Rightarrow> m)
                       then p # kept else kept))))"

text \<open>A number in a step is truthy when it is there and not zero.\<close>

definition truthy_int :: "int option \<Rightarrow> bool" where
  "truthy_int v = (case v of None \<Rightarrow> False | Some n \<Rightarrow> n \<noteq> 0)"

definition truthy_rat :: "rat option \<Rightarrow> bool" where
  "truthy_rat v = (case v of None \<Rightarrow> False | Some n \<Rightarrow> n \<noteq> 0)"

text \<open>The body of the \<open>try\<close> after the script has returned: validation, the rating filter
  (restaurants), the price filter (products), truncation, the closing event.\<close>

definition select_products ::
  "step \<Rightarrow> string \<Rightarrow> int \<Rightarrow> item list \<Rightarrow> history \<Rightarrow> (exn + item list) \<times> history" where
  "select_products st site count raw h =
     (let products = validate_products site raw;
          rated =
            (if truthy_rat (step_min_rating st) \<and> site = ''zomato'' then
               (case filter_by_rating (the (step_min_rating st)) products of
                  Inl e \<Rightarrow> (Inl e, h)
                | Inr filtered \<Rightarrow>
                    (Inr filtered,
                     send_event (Action ''filter_rating'' None
                        (Filtered_restaurants (length filtered) (the (step_min_rating st)))) h))
             else (Inr products, h))
      in case rated of
           (Inl e, h1) \<Rightarrow> (Inl e, h1)
         | (Inr filtered, h1) \<Rightarrow>
             (let priced =
                (if (truthy_int (step_max_price st) \<or> truthy_int (step_min_price st)) \<and>
                    site \<noteq> ''zomato'' then
                   (case filter_by_price (step_max_price st) (step_min_price st) filtered of
                      Inl e \<Rightarrow> (Inl e, h1)
                    | Inr filtered' \<Rightarrow>
                        (Inr filtered',
                         send_event (Action ''filter_price'' None
                            (Filtered_items (length filtered'))) h1))
                 else (Inr filtered, h1))
              in case priced of
                   (Inl e, h2) \<Rightarrow> (Inl e, h2)
                 | (Inr filtered', h2) \<Rightarrow>
                     (let final_products =
                            (if filtered' \<noteq> [] then py_slice_to count filtered' else [])
                      in (Inr final_products,
                          if length final_products = 0
                          then send_event (Warning No_valid_products) h2
                          else send_event
                                 (Action_extracted (Extracted_valid (length final_products))
                                    (length final_products) (take 2 final_products)) h2))))"

text \<open>The \<open>except\<close> of the handler: an Error event with the page title, and no items; reading
  the title can raise in turn, and then the handler raises.\<close>

definition extraction_failed ::
  "page \<Rightarrow> exn \<Rightarrow> history \<Rightarrow> (exn + item list) \<times> history" where
  "extraction_failed pg e h =
     (case title pg h of
        (Inl e', h1) \<Rightarrow> (Inl e', h1)
      | (Inr t, h1) \<Rightarrow> (Inr [], send_event (Error (Extraction_error (str_of_exn e) t)) h1))"

text \<open>What the handler does before it runs the script: the opening event, a wait of up to
  20 seconds for a result container (two more seconds when it shows; a failure is ignored),
  two seconds of sleep.\<close>

definition extract_prelude :: "page \<Rightarrow> int \<Rightarrow> history \<Rightarrow> history" where
  "extract_prelude pg count h =
     (let h1 = send_event (Action ''extract_products'' None (Extracting_top count)) h;
          waited = wait_for_selector pg
                     ''div[data-id], [class*='restaurant'], [class*='jumbo-tracker']'' 20000 h1
      in sleep 2 (if isl (fst waited) then snd waited else sleep 2 (snd waited)))"

definition handle_extract_products ::
  "page \<Rightarrow> step \<Rightarrow> history \<Rightarrow> (exn + item list) \<times> history" where
  "handle_extract_products pg st h =
     (let count = (case step_count st of None \<Rightarrow> 3 | Some c \<Rightarrow> c);
          site = (case step_site st of None \<Rightarrow> ''flipkart'' | Some s \<Rightarrow> s);
          h2 = extract_prelude pg count h
      in case evaluate pg (if site = ''zomato'' then Zomato_script else Flipkart_script) h2 of
           (Inl e, h3) \<Rightarrow> extraction_failed pg e h3
         | (Inr raw, h3) \<Rightarrow>
             (case select_products st site count raw h3 of
                (Inl e, h4) \<Rightarrow> extraction_failed pg e h4
              | (Inr final_products, h4) \<Rightarrow> (Inr final_products, h4)))"

section \<open>The validity predicates of the specification\<close>



section \<open>Example steps and items\<close>

definition page_returning :: "item list \<Rightarrow> page" where
  "page_returning items = blank_page\<lparr> evaluate_answer := (\<lambda>h sc. Inr items) \<rparr>"

definition empty_step :: step where
  "empty_step =
     \<lparr> step_action = None, step_url = None, step_wait_until = None, step_selector = None,
       step_timeout = None, step_value = None, step_clear_first = False,
       step_wait_after = None, step_max_price = None, step_min_price = None,
       step_min_rating = None, step_count = None, step_site = None,
       step_field_name = None, step_generate_if_needed = False, step_reason = None \<rparr>"

definition extract_step :: "string \<Rightarrow> int \<Rightarrow> step" where
  "extract_step site count =
     empty_step\<lparr> step_action := Some ''extract_products'', step_site := Some site,
                 step_count := Some count \<rparr>"

definition laptop :: item where
  "laptop = \<lparr> name = Some ''MacBook Air M2'', price = Some ''89,990'',
              rating = Some ''4.6'', url = Some ''https://www.flipkart.com/p/1'' \<rparr>"

definition phone :: item where
  "phone = \<lparr> name = Some '' Phone X '', price = Some ''12000'', rating = None, url = None \<rparr>"

definition tablet :: item where
  "tablet = \<lparr> name = Some ''Tablet 10'', price = Some ''23500'',
              rating = Some ''4.1'', url = Some ''https://www.flipkart.com/p/3'' \<rparr>"

definition cable :: item where
  "cable = \<lparr> name = Some ''USB cable'', price = Some ''99'', rating = None, url = None \<rparr>"

definition cafe :: item where
  "cafe = \<lparr> name = Some ''Cafe Blue'', price = Some ''free'', rating = None, url = None \<rparr>"

section \<open>The rating filter as the specification words it\<close>

text \<open>An item survives the rating filter when its rating converts to a number that is at
  least the threshold; the filter can be applied when every rating is empty or converts.\<close>

definition rating_at_least :: "rat \<Rightarrow> item \<Rightarrow> bool" where
  "rating_at_least m p =
     (case py_float (or_empty (rating p)) of None \<Rightarrow> False | Some r \<Rightarrow> double_ge r m)"

definition convertible_rating :: "item \<Rightarrow> bool" where
  "convertible_rating p = (or_empty (rating p) = [] \<or> py_float (or_empty (rating p)) \<noteq> None)"

definition restaurant :: "string \<Rightarrow> string \<Rightarrow> item" where
  "restaurant n r = \<lparr> name = Some n, price = Some [], rating = Some r, url = Some [] \<rparr>"

definition rating_step :: "rat \<Rightarrow> step" where
  "rating_step m = (extract_step ''zomato'' 3)\<lparr> step_min_rating := Some m \<rparr>"

definition five_restaurants :: "item list" where
  "five_restaurants =
     [restaurant ''Pizza Hub'' ''4.5'', restaurant ''Slice of Rome'' ''3.9'',
      restaurant ''Oven Story'' ''4.0'', restaurant ''Dough and Co'' [],
      restaurant ''Crust'' ''3.2'']"

section \<open>Rating extraction in the page scripts\<close>

text \<open>
  The character class \<open>[\d.]\<close> and the first match of \<open>/([\d.]+)/\<close> in a text: the
  leftmost longest run of digits and dots, \<open>None\<close> when the text has none.
\<close>

definition digit_or_dot :: "char \<Rightarrow> bool" where
  "digit_or_dot c = (is_digit c \<or> c = CHR ''.'')"

definition first_number_run :: "string \<Rightarrow> string option" where
  "first_number_run text =
     (case dropWhile (\<lambda>c. \<not> digit_or_dot c) text of
        [] \<Rightarrow> None
      | c # r \<Rightarrow> Some (takeWhile digit_or_dot (c # r)))"

text \<open>
  JavaScript's \<open>parseFloat\<close> on such a run: the value of the longest prefix that is a
  decimal literal (digits, then possibly a dot and digits), rounded to a double; NaN for a
  run without a digit before or right after its first dot.
\<close>

definition parseFloat :: "string \<Rightarrow> double" where
  "parseFloat s =
     (let ip = takeWhile is_digit s;
          fp = (case drop (length ip) s of
                  [] \<Rightarrow> []
                | c # r \<Rightarrow> if c = CHR ''.'' then takeWhile is_digit r else [])
      in if ip @ fp = [] then NaN
         else round_ratio (nat_of_digits (ip @ fp)) (10 ^ length fp))"

text \<open>
  The rating loops of the two scripts. The argument lists, in the order of the script's
  \<open>ratingSelectors\<close>, what \<open>container.querySelector(sel)\<close> found: \<open>None\<close> for no element,
  otherwise the element's text. The result is \<open>item.rating\<close>, \<open>None\<close> when it stays unset.
  The restaurant script takes a match only when its value is between 1 and 5.
\<close>

fun zomato_rating :: "string option list \<Rightarrow> string option" where
  "zomato_rating [] = None"
| "zomato_rating (None # rest) = zomato_rating rest"
| "zomato_rating (Some ratingText # rest) =
     (case first_number_run ratingText of
        None \<Rightarrow> zomato_rating rest
      | Some m \<Rightarrow>
          if double_ge (parseFloat m) 1 \<and> double_le (parseFloat m) 5 then Some m
          else zomato_rating rest)"

text \<open>The product script takes the first match, whatever its value.\<close>

fun flipkart_rating :: "string option list \<Rightarrow> string option" where
  "flipkart_rating [] = None"
| "flipkart_rating (None # rest) = flipkart_rating rest"
| "flipkart_rating (Some ratingText # rest) =
     (case first_number_run ratingText of
        None \<Rightarrow> flipkart_rating rest
      | Some ratingMatch \<Rightarrow> Some ratingMatch)"

section \<open>The other driver calls\<close>

definition goto ::
  "page \<Rightarrow> string option \<Rightarrow> string \<Rightarrow> nat \<Rightarrow> history \<Rightarrow> exn option \<times> history" where
  "goto pg u wait_until timeout h =
     (let r = goto_answer pg h u wait_until timeout
      in (r, h @ [Goto u wait_until timeout (r = None)]))"

definition click :: "page \<Rightarrow> selector \<Rightarrow> nat option \<Rightarrow> history \<Rightarrow> exn option \<times> history" where
  "click pg sel timeout h =
     (let r = click_answer pg h sel timeout in (r, h @ [Click sel timeout (r = None)]))"

definition fill ::
  "page \<Rightarrow> string \<Rightarrow> string \<Rightarrow> nat option \<Rightarrow> history \<Rightarrow> exn option \<times> history" where
  "fill pg sel v timeout h =
     (let r = fill_answer pg h sel v timeout in (r, h @ [Fill sel v timeout (r = None)]))"

definition type_text ::
  "page \<Rightarrow> string \<Rightarrow> string \<Rightarrow> nat \<Rightarrow> history \<Rightarrow> exn option \<times> history" where
  "type_text pg sel v delay h =
     (let r = type_answer pg h sel v delay in (r, h @ [Type_text sel v delay (r = None)]))"

definition press :: "page \<Rightarrow> string \<Rightarrow> history \<Rightarrow> exn option \<times> history" where
  "press pg key h = (let r = press_answer pg h key in (r, h @ [Press key (r = None)]))"

definition wait_for_load_state ::
  "page \<Rightarrow> string \<Rightarrow> nat \<Rightarrow> history \<Rightarrow> exn option \<times> history" where
  "wait_for_load_state pg state timeout h =
     (let r = wait_for_load_state_answer pg h state timeout
      in (r, h @ [Wait_for_load_state state timeout (r = None)]))"

section \<open>The step handlers\<close>

text \<open>
  A handler takes the history so far and gives back the history it leaves, with \<open>None\<close>
  when it returns and \<open>Some e\<close> when it raises \<open>e\<close>.
\<close>

text \<open>\<open>s.split(",")[0]\<close>.\<close>

definition first_piece :: "string \<Rightarrow> string" where
  "first_piece s = (case split_comma s of [] \<Rightarrow> [] | p # ps \<Rightarrow> p)"

definition handle_navigate :: "page \<Rightarrow> step \<Rightarrow> history \<Rightarrow> exn option \<times> history" where
  "handle_navigate pg st h =
     (let u = step_url st;
          h1 = send_event (Action ''navigate'' u (Navigating_to u)) h
      in case goto pg u (case step_wait_until st of None \<Rightarrow> ''networkidle'' | Some w \<Rightarrow> w)
                30000 h1 of
           (Some (PlaywrightTimeoutError m), h2) \<Rightarrow>
             (None, send_event (Warning Navigation_timeout) h2)
         | (Some e, h2) \<Rightarrow> (Some e, h2)
         | (None, h2) \<Rightarrow>
             (case title pg h2 of
                (Inl (PlaywrightTimeoutError m), h3) \<Rightarrow>
                  (None, send_event (Warning Navigation_timeout) h3)
              | (Inl e, h3) \<Rightarrow> (Some e, h3)
              | (Inr t, h3) \<Rightarrow>
                  (None, send_event (Action ''navigate'' None (Loaded (take 50 t))) h3)))"

text \<open>Without a \<open>selector\<close> the resolver's \<open>selectors.split\<close> raises on \<open>None\<close>.\<close>

definition handle_wait_for :: "page \<Rightarrow> step \<Rightarrow> history \<Rightarrow> exn option \<times> history" where
  "handle_wait_for pg st h =
     (case step_selector st of
        None \<Rightarrow> (Some (Exception (No_attribute ''split'')), h)
      | Some sel \<Rightarrow>
          (case find_selector_with_retry pg sel
                  (case step_timeout st of None \<Rightarrow> 10000 | Some t \<Rightarrow> t) h of
             (Some el, h1) \<Rightarrow> (None, h1)
           | (None, h1) \<Rightarrow> (None, send_event (Warning (Element_not_found (take 50 sel))) h1)))"

definition handle_type :: "page \<Rightarrow> step \<Rightarrow> history \<Rightarrow> exn option \<times> history" where
  "handle_type pg st h =
     (let sel = strip (first_piece (or_empty (step_selector st)));
          v = or_empty (step_value st)
      in case find_selector_with_retry pg sel 10000 h of
           (None, h1) \<Rightarrow> (Some (Exception (Input_not_found sel)), h1)
         | (Some el, h1) \<Rightarrow>
             (case (if step_clear_first st then fill pg sel [] None h1 else (None, h1)) of
                (Some e, h2) \<Rightarrow> (Some e, h2)
              | (None, h2) \<Rightarrow>
                  (case type_text pg sel v 50 (snd (click pg (Css sel) (Some 2000) h2)) of
                     (Some e, h3) \<Rightarrow> (Some e, h3)
                   | (None, h3) \<Rightarrow>
                       (None, send_event (Action ''type'' None (Typed_value (take 30 v))) h3))))"

text \<open>The loop of the click handler: the first candidate whose click returns.\<close>

fun click_first :: "page \<Rightarrow> string list \<Rightarrow> history \<Rightarrow> bool \<times> history" where
  "click_first pg [] h = (False, h)"
| "click_first pg (sel # sels) h =
     (case click pg (Css sel) (Some 5000) h of
        (None, h1) \<Rightarrow> (True, h1)
      | (Some e, h1) \<Rightarrow> click_first pg sels h1)"

definition handle_click :: "page \<Rightarrow> step \<Rightarrow> history \<Rightarrow> exn option \<times> history" where
  "handle_click pg st h =
     (case click_first pg (map strip (split_comma (or_empty (step_selector st)))) h of
        (clicked, h1) \<Rightarrow>
          (case (if \<not> clicked then
                   (case press pg ''Enter'' h1 of
                      (Some e, h2) \<Rightarrow> (Some e, h2)
                    | (None, h2) \<Rightarrow>
                        (None, send_event (Action ''click'' None Pressed_Enter) h2))
                 else (None, send_event (Action ''click'' None Clicked_msg) h1)) of
             (Some e, h3) \<Rightarrow> (Some e, h3)
           | (None, h3) \<Rightarrow>
               (if or_empty (step_wait_after st) \<noteq> [] then
                  (case wait_for_load_state pg (or_empty (step_wait_after st)) 15000 h3 of
                     (Some e, h4) \<Rightarrow> (Some e, h4)
                   | (None, h4) \<Rightarrow> (None, sleep 1 h4))
                else (None, h3))))"

text \<open>
  The loop over the two price inputs: without a maximum it stops at once; a fill or the
  Enter after it that raises moves on to the next input; a fill and Enter that both return
  end the loop.
\<close>

fun price_inputs :: "page \<Rightarrow> int option \<Rightarrow> string list \<Rightarrow> history \<Rightarrow> history" where
  "price_inputs pg max_p [] h = h"
| "price_inputs pg max_p (sel # sels) h =
     (if truthy_int max_p then
        (case fill pg (first_piece sel) (py_str (the max_p)) (Some 3000) h of
           (Some e, h1) \<Rightarrow> price_inputs pg max_p sels h1
         | (None, h1) \<Rightarrow>
             (case press pg ''Enter'' h1 of
                (Some e, h2) \<Rightarrow> price_inputs pg max_p sels h2
              | (None, h2) \<Rightarrow> h2))
      else h)"

text \<open>The handler stores the two bounds back into the step under the keys it read them
  from, which leaves the step as it was; nothing it does can make it raise.\<close>

definition handle_filter_price :: "page \<Rightarrow> step \<Rightarrow> history \<Rightarrow> exn option \<times> history" where
  "handle_filter_price pg st h =
     (let h1 = send_event
                 (Action ''filter_price'' None (Filtering (step_min_price st) (step_max_price st)))
                 h;
          h2 = price_inputs pg (step_max_price st)
                 [''input[placeholder*='Max']'', ''input._2IX2F-:last-of-type''] (sleep 1 h1)
      in case wait_for_load_state pg ''networkidle'' 10000 h2 of
           (Some e, h3) \<Rightarrow> (None, h3)
         | (None, h3) \<Rightarrow> (None, sleep 2 h3))"

text \<open>The loop over the two rating controls: the first whose click and load wait both
  return ends the handler.\<close>

fun rating_controls :: "page \<Rightarrow> selector list \<Rightarrow> history \<Rightarrow> history" where
  "rating_controls pg [] h = h"
| "rating_controls pg (sel # sels) h =
     (case click pg sel (Some 3000) h of
        (Some e, h1) \<Rightarrow> rating_controls pg sels h1
      | (None, h1) \<Rightarrow>
          (case wait_for_load_state pg ''networkidle'' 10000 h1 of
             (Some e, h2) \<Rightarrow> rating_controls pg sels h2
           | (None, h2) \<Rightarrow> h2))"

definition handle_filter_rating :: "page \<Rightarrow> step \<Rightarrow> history \<Rightarrow> exn option \<times> history" where
  "handle_filter_rating pg st h =
     (None,
      rating_controls pg [Star_label (step_min_rating st), Data_rating (step_min_rating st)]
        (send_event (Action ''filter_rating'' None (Rating_plus (step_min_rating st))) h))"

text \<open>
  \<open>str.lower()\<close> on the characters modelled: the letters A-Z and the capital letters of
  the range 192-222 (but the multiplication sign, 215) move up by 32.
\<close>

definition lower_char :: "char \<Rightarrow> char" where
  "lower_char c =
     (let n = (of_char c :: nat)
      in if (65 \<le> n \<and> n \<le> 90) \<or> (192 \<le> n \<and> n \<le> 222 \<and> n \<noteq> 215)
         then char_of (n + 32) else c)"

definition lower :: "string \<Rightarrow> string" where
  "lower s = map lower_char s"

text \<open>\<open>sub in s\<close> for strings.\<close>

fun contains :: "string \<Rightarrow> string \<Rightarrow> bool" where
  "contains sub [] = (sub = [])"
| "contains sub (c # cs) = (take (length sub) (c # cs) = sub \<or> contains sub cs)"

text \<open>
  What the handler draws from \<open>random\<close>: eight characters out of the lower-case letters and
  digits, a number from 7000000000 to 9999999999, a number from 1000 to 9999. Like the
  page's answers they may depend on the history.
\<close>

record randomness =
  random_choices :: "history \<Rightarrow> string"
  random_phone :: "history \<Rightarrow> int"
  random_token :: "history \<Rightarrow> int"

definition generated_value :: "randomness \<Rightarrow> string \<Rightarrow> history \<Rightarrow> string" where
  "generated_value rnd field_name h =
     (if contains ''email'' (lower field_name)
      then ''temp_'' @ random_choices rnd h @ ''@example.com''
      else if contains ''phone'' (lower field_name)
      then ''+91'' @ py_str (random_phone rnd h)
      else ''test_'' @ py_str (random_token rnd h))"

text \<open>The four candidate selectors of a form field, in the handler's order.\<close>

definition field_selectors :: "string \<Rightarrow> string list" where
  "field_selectors field_name =
     [''input[name='' @ [CHR 0x27] @ field_name @ [CHR 0x27] @ '']'',
      ''input[id='' @ [CHR 0x27] @ field_name @ [CHR 0x27] @ '']'',
      ''input[placeholder*='' @ [CHR 0x27] @ field_name @ [CHR 0x27] @ '']'',
      ''#'' @ field_name]"

text \<open>
  Without a \<open>field_name\<close>, generating a value raises (\<open>None.lower()\<close>); with a value
  given and nothing to generate, the f-strings print \<open>None\<close>. When the resolver finds an
  element, the fill goes to \<open>selectors[0]\<close>, and the element found is not used.
\<close>

definition handle_fill_form_field ::
  "randomness \<Rightarrow> page \<Rightarrow> step \<Rightarrow> history \<Rightarrow> exn option \<times> history" where
  "handle_fill_form_field rnd pg st h =
     (let generate = (or_empty (step_value st) = [] \<or> step_generate_if_needed st);
          field_name = (case step_field_name st of None \<Rightarrow> ''None'' | Some f \<Rightarrow> f);
          v = (if generate then generated_value rnd field_name h else or_empty (step_value st));
          selectors = field_selectors field_name
      in if generate \<and> step_field_name st = None
         then (Some (Exception (No_attribute ''lower'')), h)
         else
           (case find_selector_with_retry pg (join_comma selectors) 10000 h of
              (Some el, h1) \<Rightarrow>
                (case fill pg (selectors ! 0) v None h1 of
                   (Some e, h2) \<Rightarrow> (Some e, h2)
                 | (None, h2) \<Rightarrow>
                     (None,
                      send_event (Action ''fill_form_field'' None (Filled_field field_name)) h2))
            | (None, h1) \<Rightarrow> (None, send_event (Warning (Field_not_found field_name)) h1)))"

definition submit_selectors :: string where
  "submit_selectors = ''button[type='submit'], input[type='submit'], button:has-text('Submit')''"

definition handle_submit_form :: "page \<Rightarrow> step \<Rightarrow> history \<Rightarrow> exn option \<times> history" where
  "handle_submit_form pg st h =
     (case (case find_selector_with_retry pg submit_selectors 10000 h of
              (Some el, h1) \<Rightarrow> click pg (Css (first_piece submit_selectors)) None h1
            | (None, h1) \<Rightarrow> press pg ''Enter'' h1) of
        (Some e, h2) \<Rightarrow> (Some e, h2)
      | (None, h2) \<Rightarrow>
          (None,
           snd (wait_for_load_state pg
                  (case step_wait_after st of None \<Rightarrow> ''networkidle'' | Some w \<Rightarrow> w) 15000
                  (send_event (Action ''submit_form'' None Form_submitted) h2))))"

section \<open>The plan dispatcher\<close>

text \<open>A handler without results, seen as one that returns no items.\<close>

definition no_items :: "exn option \<times> history \<Rightarrow> (exn + item list) \<times> history" where
  "no_items r = (case fst r of None \<Rightarrow> Inr [] | Some e \<Rightarrow> Inl e, snd r)"

text \<open>
  The \<open>if\<close>/\<open>elif\<close> chain inside the \<open>try\<close> of the loop, for every action but
  \<open>unsupported\<close> (which leaves the loop): the handler's outcome with the items it
  extracted; an unknown action sends an Error event and returns.
\<close>

definition dispatch ::
  "randomness \<Rightarrow> page \<Rightarrow> step \<Rightarrow> history \<Rightarrow> (exn + item list) \<times> history" where
  "dispatch rnd pg st h =
     (let action = step_action st
      in if action = Some ''navigate'' then no_items (handle_navigate pg st h)
         else if action = Some ''wait_for'' then no_items (handle_wait_for pg st h)
         else if action = Some ''type'' then no_items (handle_type pg st h)
         else if action = Some ''click'' then no_items (handle_click pg st h)
         else if action = Some ''filter_price'' then no_items (handle_filter_price pg st h)
         else if action = Some ''filter_rating'' then no_items (handle_filter_rating pg st h)
         else if action = Some ''extract_products'' then handle_extract_products pg st h
         else if action = Some ''fill_form_field''
           then no_items (handle_fill_form_field rnd pg st h)
         else if action = Some ''submit_form'' then no_items (handle_submit_form pg st h)
         else (Inr [], send_event (Error (Unknown_action action)) h))"

text \<open>
  The loop \<open>for step_idx, step in enumerate(plan)\<close>: \<open>idx\<close> is the index of the first step
  of \<open>steps\<close>, \<open>total_steps\<close> is \<open>len(plan)\<close>. An \<open>unsupported\<close> step sends its reason and breaks;
  a handler that raises sends an Error event and the loop continues with the next step,
  passing over the \<open>action_complete\<close> event that follows a handler that returns.
\<close>

fun run_steps ::
  "randomness \<Rightarrow> page \<Rightarrow> nat \<Rightarrow> nat \<Rightarrow> step list \<Rightarrow> item list \<Rightarrow> history \<Rightarrow>
     item list \<times> history" where
  "run_steps rnd pg total_steps idx [] results h = (results, h)"
| "run_steps rnd pg total_steps idx (st # steps) results h =
     (let h1 = send_event (Action_start (step_action st) (idx + 1) total_steps) h
      in if step_action st = Some ''unsupported'' then
           (results,
            send_event
              (Error (Text (case step_reason st of None \<Rightarrow> ''Unsupported action''
                            | Some r \<Rightarrow> r))) h1)
         else
           (case dispatch rnd pg st h1 of
              (Inl e, h2) \<Rightarrow>
                run_steps rnd pg total_steps (idx + 1) steps results
                  (send_event (Error (Error_in (step_action st) (str_of_exn e))) h2)
            | (Inr extracted, h2) \<Rightarrow>
                run_steps rnd pg total_steps (idx + 1) steps (results @ extracted)
                  (send_event (Action_complete (step_action st)) h2)))"

text \<open>
  What starting the session answers: entering \<open>async_playwright()\<close>, launching the browser,
  opening the context and the page; then the page itself and the random source.
\<close>

record session =
  start_answer :: "exn option"
  launch_answer :: "exn option"
  new_page_answer :: "exn option"
  session_page :: page
  session_random :: randomness

text \<open>The outer \<open>except\<close> clauses; the hint is added when the text of the exception
  mentions a subprocess.\<close>

definition mentions_subprocess :: "message \<Rightarrow> bool" where
  "mentions_subprocess m = (case m of Text s \<Rightarrow> contains ''subprocess'' (lower s) | _ \<Rightarrow> False)"

definition run_failed :: "exn \<Rightarrow> event" where
  "run_failed e =
     (case e of
        NotImplementedError m \<Rightarrow> Error_failed Subprocess_error
      | _ \<Rightarrow> Error_failed (Browser_error (str_of_exn e) (mentions_subprocess (str_of_exn e))))"

text \<open>
  A run, from an empty history: the results and everything that happened. A browser that
  does not launch ends the run with one Error event. After the loop comes the closing
  Status event; at the end the run sleeps a second when it has a page and closes the browser
  when it has one (\<open>close\<close> is taken to return).
\<close>

definition run_action_plan :: "session \<Rightarrow> step list \<Rightarrow> item list \<times> history" where
  "run_action_plan s plan =
     (case start_answer s of
        Some e \<Rightarrow> ([], [Sent (run_failed e)])
      | None \<Rightarrow>
          (case launch_answer s of
             Some e \<Rightarrow> ([], [Sent (Error (Failed_to_launch (str_of_exn e)))])
           | None \<Rightarrow>
               (case new_page_answer s of
                  Some e \<Rightarrow> ([], [Sent (run_failed e), Browser_closed])
                | None \<Rightarrow>
                    (case run_steps (session_random s) (session_page s) (length plan) 0 plan []
                            [Sent (Status (Text ''Browser initialized'') ''ready'')] of
                       (results, h) \<Rightarrow>
                         (results,
                          send_event (Status (Text ''Task completed'') ''completed'') h @
                          [Slept 1, Browser_closed])))))"

section \<open>Reading a history\<close>

text \<open>An effect of a step handler: anything but a lifecycle event of the dispatcher.\<close>

fun step_effect :: "effect \<Rightarrow> bool" where
  "step_effect (Sent (Status m s)) = False"
| "step_effect (Sent (Action_start a i n)) = False"
| "step_effect (Sent (Action_complete a)) = False"
| "step_effect (Sent (Error_failed m)) = False"
| "step_effect Browser_closed = False"
| "step_effect e = True"

definition handler_run :: "history \<Rightarrow> history \<Rightarrow> bool" where
  "handler_run h h' = (\<exists>app. h' = h @ app \<and> list_all step_effect app)"

text \<open>The step numbers of the \<open>action_start\<close> events of a history, the actions of its
  \<open>action_complete\<close> events, and the messages of its \<open>error\<close> events, in order.\<close>

fun started :: "effect list \<Rightarrow> nat list" where
  "started [] = []"
| "started (Sent (Action_start a i n) # es) = i # started es"
| "started (e # es) = started es"

fun completed :: "effect list \<Rightarrow> string option list" where
  "completed [] = []"
| "completed (Sent (Action_complete a) # es) = a # completed es"
| "completed (e # es) = completed es"

fun errors :: "effect list \<Rightarrow> message list" where
  "errors [] = []"
| "errors (Sent (Error m) # es) = m # errors es"
| "errors (e # es) = errors es"

definition fixed_random :: randomness where
  "fixed_random =
     \<lparr> random_choices = (\<lambda>h. ''abcd1234''), random_phone = (\<lambda>h. 7000000000),
       random_token = (\<lambda>h. 1234) \<rparr>"

definition session_on :: "page \<Rightarrow> session" where
  "session_on pg =
     \<lparr> start_answer = None, launch_answer = None, new_page_answer = None,
       session_page = pg, session_random = fixed_random \<rparr>"

definition field_step :: "string \<Rightarrow> string \<Rightarrow> step" where
  "field_step f v =
     empty_step\<lparr> step_action := Some ''fill_form_field'', step_field_name := Some f,
                 step_value := Some v \<rparr>"

definition type_step :: "string \<Rightarrow> string \<Rightarrow> step" where
  "type_step sel v =
     empty_step\<lparr> step_action := Some ''type'', step_selector := Some sel,
                 step_value := Some v \<rparr>"

definition unsupported_step :: "string \<Rightarrow> step" where
  "unsupported_step r = empty_step\<lparr> step_action := Some ''unsupported'', step_reason := Some r \<rparr>"

definition rating_filter_step :: step where
  "rating_filter_step =
     empty_step\<lparr> step_action := Some ''filter_rating'', step_min_rating := Some 4 \<rparr>"

text \<open>A page on which only the form input with id \<open>email\<close> shows, and no fill goes
  through.\<close>

definition page_with_id_only :: page where
  "page_with_id_only =
     (page_showing [''input[id='email']''])
       \<lparr> fill_answer := (\<lambda>h sel v t. Some (Exception (Text ''no element matches''))) \<rparr>"

definition five_step_plan :: "step list" where
  "five_step_plan =
     [rating_filter_step, unsupported_step ''Intent not handled yet'',
      type_step ''#q'' ''pizza'', field_step ''email'' ''user@example.org'', rating_filter_step]"

section \<open>Properties of the selector resolver\<close>

lemma range_MAX_RETRIES: "[0..<MAX_RETRIES] = [0, 1, 2]"
  by (simp add: MAX_RETRIES_def upt_rec)

lemma attempts_raise:
  "wait_for_selector_answer pg h sel timeout = Inl e \<Longrightarrow>
   attempts pg sel timeout (a # rest) h =
     attempts pg sel timeout rest
       (h @ Wait_for_selector sel timeout False #
            (if a < MAX_RETRIES - 1 then [Slept (RETRY_DELAY * (a + 1))] else []))"
  by (simp add: wait_for_selector_def sleep_def)

lemma attempts_first:
  "attempts pg sel timeout (0 # rest) h =
     (case wait_for_selector_answer pg h sel timeout of
        Inr el \<Rightarrow> (Some el, h @ [Wait_for_selector sel timeout True])
      | Inl e \<Rightarrow>
          attempts pg sel timeout rest (h @ [Wait_for_selector sel timeout False, Slept 1]))"
  by (simp add: wait_for_selector_def sleep_def MAX_RETRIES_def RETRY_DELAY_def
      split: sum.splits)

lemma attempts_second:
  "attempts pg sel timeout (1 # rest) h =
     (case wait_for_selector_answer pg h sel timeout of
        Inr el \<Rightarrow> (Some el, h @ [Wait_for_selector sel timeout True])
      | Inl e \<Rightarrow>
          attempts pg sel timeout rest (h @ [Wait_for_selector sel timeout False, Slept 2]))"
  by (simp add: wait_for_selector_def sleep_def MAX_RETRIES_def RETRY_DELAY_def numeral_2_eq_2
      split: sum.splits)

lemma attempts_third:
  "attempts pg sel timeout (2 # rest) h =
     (case wait_for_selector_answer pg h sel timeout of
        Inr el \<Rightarrow> (Some el, h @ [Wait_for_selector sel timeout True])
      | Inl e \<Rightarrow> attempts pg sel timeout rest (h @ [Wait_for_selector sel timeout False]))"
  by (simp add: wait_for_selector_def sleep_def MAX_RETRIES_def RETRY_DELAY_def
      split: sum.splits)

lemma attempts_unfold:
  "attempts pg sel timeout [0..<MAX_RETRIES] h =
     (case wait_for_selector_answer pg h sel timeout of
        Inr el \<Rightarrow> (Some el, h @ [Wait_for_selector sel timeout True])
      | Inl e \<Rightarrow>
         (case wait_for_selector_answer pg (h @ [Wait_for_selector sel timeout False, Slept 1])
                 sel timeout of
            Inr el \<Rightarrow>
              (Some el, h @ [Wait_for_selector sel timeout False, Slept 1,
                             Wait_for_selector sel timeout True])
          | Inl e \<Rightarrow>
             (case wait_for_selector_answer pg
                     (h @ [Wait_for_selector sel timeout False, Slept 1,
                           Wait_for_selector sel timeout False, Slept 2]) sel timeout of
                Inr el \<Rightarrow>
                  (Some el, h @ [Wait_for_selector sel timeout False, Slept 1,
                                 Wait_for_selector sel timeout False, Slept 2,
                                 Wait_for_selector sel timeout True])
              | Inl e \<Rightarrow> (None, h @ exhausted timeout sel))))"
  unfolding range_MAX_RETRIES attempts_first attempts_second attempts_third
  by (simp add: exhausted_def split: sum.splits)

lemma attempts_found:
  "wait_for_selector_answer pg h sel timeout = Inr el \<Longrightarrow>
   attempts pg sel timeout [0..<MAX_RETRIES] h =
     (Some el, h @ [Wait_for_selector sel timeout True])"
  by (simp add: attempts_unfold)

lemma attempts_cases:
  "(\<exists>el. attempts pg sel timeout [0..<MAX_RETRIES] h =
       (Some el, h @ [Wait_for_selector sel timeout True])) \<or>
   (\<exists>el. attempts pg sel timeout [0..<MAX_RETRIES] h =
       (Some el, h @ [Wait_for_selector sel timeout False, Slept 1,
                      Wait_for_selector sel timeout True])) \<or>
   (\<exists>el. attempts pg sel timeout [0..<MAX_RETRIES] h =
       (Some el, h @ [Wait_for_selector sel timeout False, Slept 1,
                      Wait_for_selector sel timeout False, Slept 2,
                      Wait_for_selector sel timeout True])) \<or>
   attempts pg sel timeout [0..<MAX_RETRIES] h = (None, h @ exhausted timeout sel)"
  unfolding attempts_unfold by (simp split: sum.splits)

lemma attempts_never:
  assumes "\<forall>h. isl (wait_for_selector_answer pg h sel timeout)"
  shows "attempts pg sel timeout [0..<MAX_RETRIES] h = (None, h @ exhausted timeout sel)"
proof -
  have "\<And>h el. wait_for_selector_answer pg h sel timeout \<noteq> Inr el"
    using assms by (metis sum.disc(2))
  then show ?thesis
    unfolding attempts_unfold by (simp split: sum.splits)
qed

lemma try_selectors_exhaust:
  assumes "\<forall>c \<in> set pre. \<forall>h. isl (wait_for_selector_answer pg h c timeout)"
  shows "try_selectors pg timeout (pre @ cs) h =
         try_selectors pg timeout cs (h @ concat (map (exhausted timeout) pre))"
  using assms by (induction pre arbitrary: h) (simp_all add: attempts_never)

lemma waits_append: "waits (a @ b) = waits a @ waits b"
  by (induction a rule: waits.induct) simp_all

lemma failed_attempts_append:
  "failed_attempts (a @ b) = failed_attempts a + failed_attempts b"
  by (simp add: failed_attempts_def waits_append)

lemma failed_attempts_exhausted: "failed_attempts (exhausted timeout sel) = 3"
  by (simp add: failed_attempts_def exhausted_def)

lemma failed_attempts_concat_exhausted:
  "failed_attempts (concat (map (exhausted timeout) cs)) = length cs * 3"
proof (induction cs)
  case Nil
  show ?case by (simp add: failed_attempts_def)
next
  case (Cons c cs)
  then show ?case by (simp add: failed_attempts_append failed_attempts_exhausted)
qed

lemma try_selectors_first_visible:
  assumes "K < length cs"
    and "\<forall>i<K. \<forall>h. isl (wait_for_selector_answer pg h (cs ! i) timeout)"
    and "wait_for_selector_answer pg (h @ concat (map (exhausted timeout) (take K cs)))
           (cs ! K) timeout = Inr el"
  shows "try_selectors pg timeout cs h =
           (Some el, h @ concat (map (exhausted timeout) (take K cs)) @
                     [Wait_for_selector (cs ! K) timeout True])"
proof -
  have cs: "cs = take K cs @ (cs ! K) # drop (Suc K) cs"
    using assms(1) by (simp add: id_take_nth_drop)
  have pre: "\<forall>c \<in> set (take K cs). \<forall>h. isl (wait_for_selector_answer pg h c timeout)"
    using assms(1,2) by (auto simp: in_set_conv_nth)
  have "try_selectors pg timeout cs h =
        try_selectors pg timeout (take K cs @ (cs ! K) # drop (Suc K) cs) h"
    using cs by simp
  also have "\<dots> = try_selectors pg timeout ((cs ! K) # drop (Suc K) cs)
                     (h @ concat (map (exhausted timeout) (take K cs)))"
    using pre by (rule try_selectors_exhaust)
  also have "\<dots> = (Some el, h @ concat (map (exhausted timeout) (take K cs)) @
                               [Wait_for_selector (cs ! K) timeout True])"
    by (simp add: attempts_found [OF assms(3)])
  finally show ?thesis .
qed

lemma retried_0: "retried timeout sel 0 = []"
  by (simp add: retried_def)

lemma retried_1: "retried timeout sel 1 = [Wait_for_selector sel timeout False, Slept 1]"
  by (simp add: retried_def RETRY_DELAY_def)

lemma retried_2:
  "retried timeout sel 2 =
     [Wait_for_selector sel timeout False, Slept 1, Wait_for_selector sel timeout False, Slept 2]"
  by (simp add: retried_def RETRY_DELAY_def upt_rec numeral_2_eq_2)

lemma failed_attempts_retried: "failed_attempts (retried timeout sel j) = j"
  by (induction j) (simp_all add: retried_def failed_attempts_def waits_append)

lemma below_MAX_RETRIES: "0 < MAX_RETRIES" "Suc 0 < MAX_RETRIES" "2 < MAX_RETRIES"
  by (simp_all add: MAX_RETRIES_def)

lemma attempts_shape:
  "attempts pg sel timeout [0..<MAX_RETRIES] h = (None, h @ exhausted timeout sel) \<or>
   (\<exists>j el. j < MAX_RETRIES \<and>
      attempts pg sel timeout [0..<MAX_RETRIES] h =
        (Some el, h @ retried timeout sel j @ [Wait_for_selector sel timeout True]) \<and>
      wait_for_selector_answer pg (h @ retried timeout sel j) sel timeout = Inr el)"
proof -
  let ?w = "wait_for_selector_answer pg"
  let ?P = "\<lambda>j el. j < MAX_RETRIES \<and>
      attempts pg sel timeout [0..<MAX_RETRIES] h =
        (Some el, h @ retried timeout sel j @ [Wait_for_selector sel timeout True]) \<and>
      ?w (h @ retried timeout sel j) sel timeout = Inr el"
  show ?thesis
  proof (cases "?w h sel timeout")
    case (Inr el)
    then have "?P 0 el"
      unfolding retried_0 attempts_unfold by (simp add: below_MAX_RETRIES)
    then show ?thesis by blast
  next
    case a: (Inl e)
    show ?thesis
    proof (cases "?w (h @ [Wait_for_selector sel timeout False, Slept 1]) sel timeout")
      case (Inr el)
      with a have "?P 1 el"
        unfolding retried_1 attempts_unfold by (simp add: below_MAX_RETRIES)
      then show ?thesis by blast
    next
      case b: (Inl e')
      show ?thesis
      proof (cases "?w (h @ [Wait_for_selector sel timeout False, Slept 1,
                             Wait_for_selector sel timeout False, Slept 2]) sel timeout")
        case (Inr el)
        with a b have "?P 2 el"
          unfolding retried_2 attempts_unfold by (simp add: below_MAX_RETRIES)
        then show ?thesis by blast
      next
        case (Inl e'')
        with a b show ?thesis
          unfolding attempts_unfold by simp
      qed
    qed
  qed
qed

lemma try_selectors_shape:
  "try_selectors pg timeout cs h = (None, h @ concat (map (exhausted timeout) cs)) \<or>
   (\<exists>K j el. K < length cs \<and> j < MAX_RETRIES \<and>
      try_selectors pg timeout cs h =
        (Some el, h @ concat (map (exhausted timeout) (take K cs)) @
                  retried timeout (cs ! K) j @ [Wait_for_selector (cs ! K) timeout True]) \<and>
      wait_for_selector_answer pg
        (h @ concat (map (exhausted timeout) (take K cs)) @ retried timeout (cs ! K) j)
        (cs ! K) timeout = Inr el)"
proof (induction cs arbitrary: h)
  case Nil
  show ?case by simp
next
  case (Cons c cs)
  from attempts_shape [of pg c timeout h] show ?case
  proof
    assume none: "attempts pg c timeout [0..<MAX_RETRIES] h = (None, h @ exhausted timeout c)"
    from Cons.IH [of "h @ exhausted timeout c"] show ?thesis
    proof
      assume "try_selectors pg timeout cs (h @ exhausted timeout c) =
        (None, (h @ exhausted timeout c) @ concat (map (exhausted timeout) cs))"
      with none show ?thesis by simp
    next
      assume "\<exists>K j el. K < length cs \<and> j < MAX_RETRIES \<and>
        try_selectors pg timeout cs (h @ exhausted timeout c) =
          (Some el, (h @ exhausted timeout c) @ concat (map (exhausted timeout) (take K cs)) @
                  retried timeout (cs ! K) j @ [Wait_for_selector (cs ! K) timeout True]) \<and>
        wait_for_selector_answer pg
          ((h @ exhausted timeout c) @ concat (map (exhausted timeout) (take K cs)) @
             retried timeout (cs ! K) j)
          (cs ! K) timeout = Inr el"
      then obtain K j el where K: "K < length cs" "j < MAX_RETRIES"
        and t: "try_selectors pg timeout cs (h @ exhausted timeout c) =
          (Some el, (h @ exhausted timeout c) @ concat (map (exhausted timeout) (take K cs)) @
                  retried timeout (cs ! K) j @ [Wait_for_selector (cs ! K) timeout True])"
        and w: "wait_for_selector_answer pg
          ((h @ exhausted timeout c) @ concat (map (exhausted timeout) (take K cs)) @
             retried timeout (cs ! K) j)
          (cs ! K) timeout = Inr el"
        by blast
      have "Suc K < length (c # cs) \<and> j < MAX_RETRIES \<and>
        try_selectors pg timeout (c # cs) h =
          (Some el, h @ concat (map (exhausted timeout) (take (Suc K) (c # cs))) @
                  retried timeout ((c # cs) ! Suc K) j @
                  [Wait_for_selector ((c # cs) ! Suc K) timeout True]) \<and>
        wait_for_selector_answer pg
          (h @ concat (map (exhausted timeout) (take (Suc K) (c # cs))) @
             retried timeout ((c # cs) ! Suc K) j)
          ((c # cs) ! Suc K) timeout = Inr el"
        using K none t w by simp
      then show ?thesis by blast
    qed
  next
    assume "\<exists>j el. j < MAX_RETRIES \<and>
      attempts pg c timeout [0..<MAX_RETRIES] h =
        (Some el, h @ retried timeout c j @ [Wait_for_selector c timeout True]) \<and>
      wait_for_selector_answer pg (h @ retried timeout c j) c timeout = Inr el"
    then obtain j el where j: "j < MAX_RETRIES"
      and a: "attempts pg c timeout [0..<MAX_RETRIES] h =
        (Some el, h @ retried timeout c j @ [Wait_for_selector c timeout True])"
      and w: "wait_for_selector_answer pg (h @ retried timeout c j) c timeout = Inr el"
      by blast
    have "0 < length (c # cs) \<and> j < MAX_RETRIES \<and>
        try_selectors pg timeout (c # cs) h =
          (Some el, h @ concat (map (exhausted timeout) (take 0 (c # cs))) @
                  retried timeout ((c # cs) ! 0) j @
                  [Wait_for_selector ((c # cs) ! 0) timeout True]) \<and>
        wait_for_selector_answer pg
          (h @ concat (map (exhausted timeout) (take 0 (c # cs))) @
             retried timeout ((c # cs) ! 0) j)
          ((c # cs) ! 0) timeout = Inr el"
      using j a w by simp
    then show ?thesis by blast
  qed
qed

lemma try_selectors_count:
  "failed_attempts (concat (map (exhausted timeout) (take K cs)) @
                  retried timeout c j @ [Wait_for_selector c timeout True]) = min (length cs) K * 3 + j"
  by (simp add: failed_attempts_append failed_attempts_concat_exhausted failed_attempts_retried, simp add: failed_attempts_def)

lemma try_selectors_extends: "\<exists>r app. try_selectors pg timeout cs h = (r, h @ app)"
  using try_selectors_shape [of pg timeout cs h] by auto

lemma try_selectors_starts:
  "\<exists>r ok rest. try_selectors pg timeout (c # cs) h = (r, h @ Wait_for_selector c timeout ok # rest)"
proof -
  obtain r app where rest:
    "try_selectors pg timeout cs (h @ exhausted timeout c) = (r, (h @ exhausted timeout c) @ app)"
    using try_selectors_extends by blast
  from attempts_cases [of pg c timeout h] rest show ?thesis
    by (auto simp: exhausted_def)
qed

lemma attempts_after_retries:
  assumes j: "j < MAX_RETRIES"
    and failed: "\<forall>i<j. isl (wait_for_selector_answer pg (h @ retried timeout sel i) sel timeout)"
    and found: "wait_for_selector_answer pg (h @ retried timeout sel j) sel timeout = Inr el"
  shows "attempts pg sel timeout [0..<MAX_RETRIES] h =
           (Some el, h @ retried timeout sel j @ [Wait_for_selector sel timeout True])"
proof -
  let ?w = "wait_for_selector_answer pg"
  from j have "j = 0 \<or> j = 1 \<or> j = 2"
    by (auto simp: MAX_RETRIES_def)
  then show ?thesis
  proof (elim disjE)
    assume j0: "j = 0"
    from found have "?w h sel timeout = Inr el"
      unfolding j0 retried_0 by simp
    then show ?thesis
      unfolding j0 retried_0 attempts_unfold by simp
  next
    assume j1: "j = 1"
    from failed have "isl (?w (h @ retried timeout sel 0) sel timeout)"
      unfolding j1 by simp
    then obtain e where a: "?w h sel timeout = Inl e"
      unfolding retried_0 by (cases "?w h sel timeout") simp_all
    from found
    have b: "?w (h @ [Wait_for_selector sel timeout False, Slept 1]) sel timeout = Inr el"
      unfolding j1 retried_1 .
    from a b show ?thesis
      unfolding j1 retried_1 attempts_unfold by simp
  next
    assume j2: "j = 2"
    from failed have "isl (?w (h @ retried timeout sel 0) sel timeout)"
      unfolding j2 by simp
    then obtain e where a: "?w h sel timeout = Inl e"
      unfolding retried_0 by (cases "?w h sel timeout") simp_all
    from failed have "isl (?w (h @ retried timeout sel 1) sel timeout)"
      unfolding j2 by simp
    then obtain e' where
      b: "?w (h @ [Wait_for_selector sel timeout False, Slept 1]) sel timeout = Inl e'"
      unfolding retried_1
      by (cases "?w (h @ [Wait_for_selector sel timeout False, Slept 1]) sel timeout") simp_all
    from found
    have c: "?w (h @ [Wait_for_selector sel timeout False, Slept 1,
                      Wait_for_selector sel timeout False, Slept 2]) sel timeout = Inr el"
      unfolding j2 retried_2 .
    from a b c show ?thesis
      unfolding j2 retried_2 attempts_unfold by simp
  qed
qed

lemma try_selectors_after_retries:
  assumes "K < length cs"
    and "\<forall>i<K. \<forall>h. isl (wait_for_selector_answer pg h (cs ! i) timeout)"
    and "j < MAX_RETRIES"
    and "\<forall>i<j. isl (wait_for_selector_answer pg
                     (h @ concat (map (exhausted timeout) (take K cs)) @
                      retried timeout (cs ! K) i) (cs ! K) timeout)"
    and "wait_for_selector_answer pg
           (h @ concat (map (exhausted timeout) (take K cs)) @ retried timeout (cs ! K) j)
           (cs ! K) timeout = Inr el"
  shows "try_selectors pg timeout cs h =
           (Some el, h @ concat (map (exhausted timeout) (take K cs)) @
                     retried timeout (cs ! K) j @ [Wait_for_selector (cs ! K) timeout True])"
proof -
  let ?h = "h @ concat (map (exhausted timeout) (take K cs))"
  have cs: "cs = take K cs @ (cs ! K) # drop (Suc K) cs"
    using assms(1) by (simp add: id_take_nth_drop)
  have pre: "\<forall>c \<in> set (take K cs). \<forall>h. isl (wait_for_selector_answer pg h c timeout)"
    using assms(1,2) by (auto simp: in_set_conv_nth)
  have att: "attempts pg (cs ! K) timeout [0..<MAX_RETRIES] ?h =
      (Some el, ?h @ retried timeout (cs ! K) j @ [Wait_for_selector (cs ! K) timeout True])"
    using assms(3,4,5) by (intro attempts_after_retries) simp_all
  have "try_selectors pg timeout cs h =
        try_selectors pg timeout (take K cs @ (cs ! K) # drop (Suc K) cs) h"
    using cs by simp
  also have "\<dots> = try_selectors pg timeout ((cs ! K) # drop (Suc K) cs) ?h"
    using pre by (rule try_selectors_exhaust)
  also have "\<dots> = (Some el, h @ concat (map (exhausted timeout) (take K cs)) @
                     retried timeout (cs ! K) j @ [Wait_for_selector (cs ! K) timeout True])"
    by (simp add: att)
  finally show ?thesis .
qed

text \<open>
  Claim C3, amended. The resolver tries the candidates of \<open>selectors\<close> (split at commas,
  stripped) strictly in order, three waits per candidate. Either every candidate is exhausted
  and the result is \<open>None\<close>, or the result is the element of the first wait that returned:
  the \<open>K\<close> candidates before it are exhausted (three failed waits each) and the candidate
  itself has \<open>j < 3\<close> failed waits before the one that returns. So when the first \<open>K\<close>
  candidates never show and candidate \<open>K + 1\<close> shows at its wait number \<open>j + 1\<close>, after
  \<open>j\<close> failed waits of its own, exactly \<open>K * 3 + j\<close> failed waits precede the success:
  \<open>K * 3\<close> only when it shows at the first wait for it.
\<close>

theorem find_selector_with_retry_order:
  assumes cs: "cs = map strip (split_comma selectors)"
  shows
  "(find_selector_with_retry pg selectors timeout h =
      (None, h @ concat (map (exhausted timeout) cs)) \<or>
    (\<exists>K j el. K < length cs \<and> j < MAX_RETRIES \<and>
       find_selector_with_retry pg selectors timeout h =
         (Some el, h @ concat (map (exhausted timeout) (take K cs)) @
                   retried timeout (cs ! K) j @ [Wait_for_selector (cs ! K) timeout True]) \<and>
       wait_for_selector_answer pg
         (h @ concat (map (exhausted timeout) (take K cs)) @ retried timeout (cs ! K) j)
         (cs ! K) timeout = Inr el \<and>
       failed_attempts (concat (map (exhausted timeout) (take K cs)) @
                   retried timeout (cs ! K) j @ [Wait_for_selector (cs ! K) timeout True])
         = K * 3 + j)) \<and>
   (\<forall>K j el. K < length cs \<and> j < MAX_RETRIES \<and>
       (\<forall>i<K. \<forall>h'. isl (wait_for_selector_answer pg h' (cs ! i) timeout)) \<and>
       (\<forall>i<j. isl (wait_for_selector_answer pg
                     (h @ concat (map (exhausted timeout) (take K cs)) @
                      retried timeout (cs ! K) i) (cs ! K) timeout)) \<and>
       wait_for_selector_answer pg
         (h @ concat (map (exhausted timeout) (take K cs)) @ retried timeout (cs ! K) j)
         (cs ! K) timeout = Inr el \<longrightarrow>
       find_selector_with_retry pg selectors timeout h =
         (Some el, h @ concat (map (exhausted timeout) (take K cs)) @
                   retried timeout (cs ! K) j @ [Wait_for_selector (cs ! K) timeout True]) \<and>
       failed_attempts (concat (map (exhausted timeout) (take K cs)) @
                        retried timeout (cs ! K) j) = K * 3 + j)"
proof (intro conjI allI impI)
  have count: "\<And>K j. K < length cs \<Longrightarrow>
      failed_attempts (concat (map (exhausted timeout) (take K cs)) @
                   retried timeout (cs ! K) j @ [Wait_for_selector (cs ! K) timeout True])
         = K * 3 + j"
    by (simp add: try_selectors_count)
  from try_selectors_shape [of pg timeout cs h] count
  show "find_selector_with_retry pg selectors timeout h =
      (None, h @ concat (map (exhausted timeout) cs)) \<or>
    (\<exists>K j el. K < length cs \<and> j < MAX_RETRIES \<and>
       find_selector_with_retry pg selectors timeout h =
         (Some el, h @ concat (map (exhausted timeout) (take K cs)) @
                   retried timeout (cs ! K) j @ [Wait_for_selector (cs ! K) timeout True]) \<and>
       wait_for_selector_answer pg
         (h @ concat (map (exhausted timeout) (take K cs)) @ retried timeout (cs ! K) j)
         (cs ! K) timeout = Inr el \<and>
       failed_attempts (concat (map (exhausted timeout) (take K cs)) @
                   retried timeout (cs ! K) j @ [Wait_for_selector (cs ! K) timeout True])
         = K * 3 + j)"
    unfolding find_selector_with_retry_def cs [symmetric] by blast
next
  fix K j el
  assume a: "K < length cs \<and> j < MAX_RETRIES \<and>
       (\<forall>i<K. \<forall>h'. isl (wait_for_selector_answer pg h' (cs ! i) timeout)) \<and>
       (\<forall>i<j. isl (wait_for_selector_answer pg
                     (h @ concat (map (exhausted timeout) (take K cs)) @
                      retried timeout (cs ! K) i) (cs ! K) timeout)) \<and>
       wait_for_selector_answer pg
         (h @ concat (map (exhausted timeout) (take K cs)) @ retried timeout (cs ! K) j)
         (cs ! K) timeout = Inr el"
  then show "find_selector_with_retry pg selectors timeout h =
         (Some el, h @ concat (map (exhausted timeout) (take K cs)) @
                   retried timeout (cs ! K) j @ [Wait_for_selector (cs ! K) timeout True])"
    unfolding find_selector_with_retry_def cs [symmetric]
    by (intro try_selectors_after_retries) simp_all
  from a show "failed_attempts (concat (map (exhausted timeout) (take K cs)) @
                        retried timeout (cs ! K) j) = K * 3 + j"
    by (simp add: failed_attempts_append failed_attempts_concat_exhausted
        failed_attempts_retried)
qed

text \<open>Two candidates, the first never shows, the second shows at the second wait for it:
  the three failed waits of the first and one failed wait of the second precede the
  success.\<close>

theorem find_selector_with_retry_order_witness:
  "find_selector_with_retry (page_showing_late ''#b'') ''#a, #b'' 10000 [] =
     (Some 7, exhausted 10000 ''#a'' @
              [Wait_for_selector ''#b'' 10000 False, Slept 1, Wait_for_selector ''#b'' 10000 True]) \<and>
   failed_attempts (exhausted 10000 ''#a'' @ [Wait_for_selector ''#b'' 10000 False, Slept 1]) =
     1 * 3 + 1"
proof -
  let ?pg = "page_showing_late ''#b''"
  let ?cs = "[''#a'', ''#b'']"
  have cs: "?cs = map strip (split_comma ''#a, #b'')"
    by (simp add: strip_def py_isspace_def)
  have never: "\<forall>i<1. \<forall>h'. isl (wait_for_selector_answer ?pg h' (?cs ! i) 10000)"
    by (simp add: page_showing_late_def)
  have failed: "\<forall>i<1. isl (wait_for_selector_answer ?pg
                  ([] @ concat (map (exhausted 10000) (take 1 ?cs)) @ retried 10000 (?cs ! 1) i)
                  (?cs ! 1) 10000)"
    by (simp add: page_showing_late_def exhausted_def retried_def)
  have found: "wait_for_selector_answer ?pg
                 ([] @ concat (map (exhausted 10000) (take 1 ?cs)) @ retried 10000 (?cs ! 1) 1)
                 (?cs ! 1) 10000 = Inr 7"
    by (simp add: page_showing_late_def exhausted_def retried_def)
  from find_selector_with_retry_order [OF cs, of ?pg 10000 "[]"]
  have "\<forall>K j el. K < length ?cs \<and> j < MAX_RETRIES \<and>
       (\<forall>i<K. \<forall>h'. isl (wait_for_selector_answer ?pg h' (?cs ! i) 10000)) \<and>
       (\<forall>i<j. isl (wait_for_selector_answer ?pg
                     ([] @ concat (map (exhausted 10000) (take K ?cs)) @
                      retried 10000 (?cs ! K) i) (?cs ! K) 10000)) \<and>
       wait_for_selector_answer ?pg
         ([] @ concat (map (exhausted 10000) (take K ?cs)) @ retried 10000 (?cs ! K) j)
         (?cs ! K) 10000 = Inr el \<longrightarrow>
       find_selector_with_retry ?pg ''#a, #b'' 10000 [] =
         (Some el, [] @ concat (map (exhausted 10000) (take K ?cs)) @
                   retried 10000 (?cs ! K) j @ [Wait_for_selector (?cs ! K) 10000 True]) \<and>
       failed_attempts (concat (map (exhausted 10000) (take K ?cs)) @
                        retried 10000 (?cs ! K) j) = K * 3 + j"
    by (rule conjunct2)
  from this [rule_format, of 1 1 7] never failed found
  show ?thesis by (simp add: below_MAX_RETRIES retried_def RETRY_DELAY_def)
qed

text \<open>A candidate that shows at the second wait for it: one more failed wait, and a sleep
  of one second, precede the success.\<close>

lemma late_candidate_scenario:
  "find_selector_with_retry (page_showing_late ''#b'') ''#a, #b'' 10000 [] =
     (Some 7, exhausted 10000 ''#a'' @
              [Wait_for_selector ''#b'' 10000 False, Slept 1, Wait_for_selector ''#b'' 10000 True])"
proof -
  have cs: "map strip (split_comma ''#a, #b'') = [''#a'', ''#b'']"
    by (simp add: strip_def py_isspace_def)
  show ?thesis
    unfolding find_selector_with_retry_def cs
    by (simp add: attempts_unfold page_showing_late_def exhausted_def)
qed

text \<open>On that page the first candidate never shows and the second succeeds, and four
  failed waits, not three, precede the success.\<close>

theorem find_selector_with_retry_order_counterexample:
  "(\<forall>h'. isl (wait_for_selector_answer (page_showing_late ''#b'') h' ''#a'' 10000)) \<and>
   find_selector_with_retry (page_showing_late ''#b'') ''#a, #b'' 10000 [] =
     (Some 7, exhausted 10000 ''#a'' @
              [Wait_for_selector ''#b'' 10000 False, Slept 1, Wait_for_selector ''#b'' 10000 True]) \<and>
   failed_attempts (exhausted 10000 ''#a'' @ [Wait_for_selector ''#b'' 10000 False, Slept 1]) = 4 \<and>
   failed_attempts (exhausted 10000 ''#a'' @ [Wait_for_selector ''#b'' 10000 False, Slept 1]) \<noteq>
     1 * 3"
  using late_candidate_scenario
  by (simp add: page_showing_late_def failed_attempts_def exhausted_def)

text \<open>
  Claim C8. Between the attempts on one candidate the resolver sleeps
  \<open>RETRY_DELAY * (attempt + 1)\<close> seconds with \<open>RETRY_DELAY = 1\<close>: one second after the
  first failed attempt, two after the second, and nothing after the last attempt, whose failure
  is followed at once by the first wait for the next candidate.
\<close>

theorem retry_delay_linear:
  "((\<exists>el. attempts pg sel timeout [0..<MAX_RETRIES] h =
       (Some el, h @ [Wait_for_selector sel timeout True])) \<or>
    (\<exists>el. attempts pg sel timeout [0..<MAX_RETRIES] h =
       (Some el, h @ [Wait_for_selector sel timeout False, Slept (1 * RETRY_DELAY),
                      Wait_for_selector sel timeout True])) \<or>
    (\<exists>el. attempts pg sel timeout [0..<MAX_RETRIES] h =
       (Some el, h @ [Wait_for_selector sel timeout False, Slept (1 * RETRY_DELAY),
                      Wait_for_selector sel timeout False, Slept (2 * RETRY_DELAY),
                      Wait_for_selector sel timeout True])) \<or>
    attempts pg sel timeout [0..<MAX_RETRIES] h =
       (None, h @ [Wait_for_selector sel timeout False, Slept (1 * RETRY_DELAY),
                   Wait_for_selector sel timeout False, Slept (2 * RETRY_DELAY),
                   Wait_for_selector sel timeout False])) \<and>
   RETRY_DELAY = 1 \<and>
   (\<forall>e attempt rest. wait_for_selector_answer pg h sel timeout = Inl e \<longrightarrow>
      attempts pg sel timeout (attempt # rest) h =
        attempts pg sel timeout rest
          (h @ Wait_for_selector sel timeout False #
             (if attempt < MAX_RETRIES - 1 then [Slept (RETRY_DELAY * (attempt + 1))] else []))) \<and>
   ((\<forall>h'. isl (wait_for_selector_answer pg h' sel timeout)) \<longrightarrow>
      (\<exists>r ok rest. try_selectors pg timeout (sel # next_sel # sels) h =
         (r, h @ exhausted timeout sel @ Wait_for_selector next_sel timeout ok # rest)))"
proof (intro conjI allI impI)
  from attempts_cases [of pg sel timeout h]
  show "(\<exists>el. attempts pg sel timeout [0..<MAX_RETRIES] h =
       (Some el, h @ [Wait_for_selector sel timeout True])) \<or>
    (\<exists>el. attempts pg sel timeout [0..<MAX_RETRIES] h =
       (Some el, h @ [Wait_for_selector sel timeout False, Slept (1 * RETRY_DELAY),
                      Wait_for_selector sel timeout True])) \<or>
    (\<exists>el. attempts pg sel timeout [0..<MAX_RETRIES] h =
       (Some el, h @ [Wait_for_selector sel timeout False, Slept (1 * RETRY_DELAY),
                      Wait_for_selector sel timeout False, Slept (2 * RETRY_DELAY),
                      Wait_for_selector sel timeout True])) \<or>
    attempts pg sel timeout [0..<MAX_RETRIES] h =
       (None, h @ [Wait_for_selector sel timeout False, Slept (1 * RETRY_DELAY),
                   Wait_for_selector sel timeout False, Slept (2 * RETRY_DELAY),
                   Wait_for_selector sel timeout False])"
    by (simp add: RETRY_DELAY_def exhausted_def)
next
  show "RETRY_DELAY = 1" by (simp add: RETRY_DELAY_def)
next
  fix e attempt rest
  assume "wait_for_selector_answer pg h sel timeout = Inl e"
  then show "attempts pg sel timeout (attempt # rest) h =
        attempts pg sel timeout rest
          (h @ Wait_for_selector sel timeout False #
             (if attempt < MAX_RETRIES - 1 then [Slept (RETRY_DELAY * (attempt + 1))] else []))"
    by (rule attempts_raise)
next
  assume never: "\<forall>h'. isl (wait_for_selector_answer pg h' sel timeout)"
  obtain r ok rest where "try_selectors pg timeout (next_sel # sels) (h @ exhausted timeout sel) =
      (r, (h @ exhausted timeout sel) @ Wait_for_selector next_sel timeout ok # rest)"
    using try_selectors_starts by blast
  then have "try_selectors pg timeout (sel # next_sel # sels) h =
         (r, h @ exhausted timeout sel @ Wait_for_selector next_sel timeout ok # rest)"
    using attempts_never [OF never] by simp
  then show "\<exists>r ok rest. try_selectors pg timeout (sel # next_sel # sels) h =
         (r, h @ exhausted timeout sel @ Wait_for_selector next_sel timeout ok # rest)"
    by blast
qed

theorem retry_delay_linear_witness:
  "attempts (page_showing [''#b'']) ''#a'' 10000 (5 # [6]) [] =
     attempts (page_showing [''#b'']) ''#a'' 10000 [6] [Wait_for_selector ''#a'' 10000 False] \<and>
   attempts (page_showing [''#b'']) ''#a'' 10000 (0 # [1, 2]) [] =
     attempts (page_showing [''#b'']) ''#a'' 10000 [1, 2]
       [Wait_for_selector ''#a'' 10000 False, Slept 1] \<and>
   (\<exists>r ok rest. try_selectors (page_showing [''#b'']) 10000 [''#a'', ''#b'', ''#c''] [] =
      (r, exhausted 10000 ''#a'' @ Wait_for_selector ''#b'' 10000 ok # rest))"
proof -
  have raise: "wait_for_selector_answer (page_showing [''#b'']) [] ''#a'' 10000 =
      Inl (PlaywrightTimeoutError (Text ''Timeout''))"
    by (simp add: page_showing_def)
  have never: "\<forall>h'. isl (wait_for_selector_answer (page_showing [''#b'']) h' ''#a'' 10000)"
    by (simp add: page_showing_def)
  note t = retry_delay_linear [of "page_showing [''#b'']" "''#a''" 10000 "[]" "''#b''" "[''#c'']"]
  from t have step: "\<forall>e attempt rest.
      wait_for_selector_answer (page_showing [''#b'']) [] ''#a'' 10000 = Inl e \<longrightarrow>
      attempts (page_showing [''#b'']) ''#a'' 10000 (attempt # rest) [] =
        attempts (page_showing [''#b'']) ''#a'' 10000 rest
          ([] @ Wait_for_selector ''#a'' 10000 False #
             (if attempt < MAX_RETRIES - 1 then [Slept (RETRY_DELAY * (attempt + 1))] else []))"
    by blast
  from t never have nxt: "\<exists>r ok rest. try_selectors (page_showing [''#b'']) 10000 [''#a'', ''#b'', ''#c''] [] =
      (r, [] @ exhausted 10000 ''#a'' @ Wait_for_selector ''#b'' 10000 ok # rest)"
    by blast
  from step [rule_format, OF raise, of 5 "[6]"] step [rule_format, OF raise, of 0 "[1, 2]"] nxt
  show ?thesis by (simp add: MAX_RETRIES_def RETRY_DELAY_def)
qed

section \<open>Properties of the conversions\<close>













section \<open>Properties of the extraction pipeline\<close>





lemma filter_by_rating_subset:
  "filter_by_rating m ps = Inr kept \<Longrightarrow> set kept \<subseteq> set ps"
  by (induction ps arbitrary: kept) (auto split: if_splits option.splits sum.splits)

lemma filter_by_price_subset:
  "filter_by_price max_p min_p ps = Inr kept \<Longrightarrow> set kept \<subseteq> set ps"
  by (induction ps arbitrary: kept) (auto split: if_splits option.splits sum.splits)

lemma py_slice_to_subset: "set (py_slice_to n xs) \<subseteq> set xs"
  by (auto simp: py_slice_to_def dest: in_set_takeD)


lemma in_py_slice_to: "x \<in> set (py_slice_to n xs) \<Longrightarrow> x \<in> set xs"
  using py_slice_to_subset by fastforce

lemma select_products_shape:
  assumes "select_products st site count raw h = (Inr items, h')"
  shows "\<exists>filtered. set filtered \<subseteq> set (validate_products site raw) \<and>
           items = (if filtered \<noteq> [] then py_slice_to count filtered else [])"
proof -
  let ?valid = "validate_products site raw"
  obtain rated h1 where rated: "set rated \<subseteq> set ?valid"
    and r: "select_products st site count raw h =
      (let priced =
                (if (truthy_int (step_max_price st) \<or> truthy_int (step_min_price st)) \<and>
                    site \<noteq> ''zomato'' then
                   (case filter_by_price (step_max_price st) (step_min_price st) rated of
                      Inl e \<Rightarrow> (Inl e, h1)
                    | Inr filtered' \<Rightarrow>
                        (Inr filtered',
                         send_event (Action ''filter_price'' None
                            (Filtered_items (length filtered'))) h1))
                 else (Inr rated, h1))
              in case priced of
                   (Inl e, h2) \<Rightarrow> (Inl e, h2)
                 | (Inr filtered', h2) \<Rightarrow>
                     (let final_products =
                            (if filtered' \<noteq> [] then py_slice_to count filtered' else [])
                      in (Inr final_products,
                          if length final_products = 0
                          then send_event (Warning No_valid_products) h2
                          else send_event
                                 (Action_extracted (Extracted_valid (length final_products))
                                    (length final_products) (take 2 final_products)) h2)))"
  proof (cases "truthy_rat (step_min_rating st) \<and> site = ''zomato''")
    case False
    then show ?thesis
      by (intro that [of ?valid h]) (auto simp: select_products_def)
  next
    case True
    show ?thesis
    proof (cases "filter_by_rating (the (step_min_rating st)) ?valid")
      case (Inl e)
      with True assms show ?thesis by (simp add: select_products_def)
    next
      case (Inr filtered)
      with True show ?thesis
        by (intro that [of filtered]) (auto simp: select_products_def dest: filter_by_rating_subset)
    qed
  qed
  show ?thesis
  proof (cases "(truthy_int (step_max_price st) \<or> truthy_int (step_min_price st)) \<and>
                    site \<noteq> ''zomato''")
    case False
    with assms r rated show ?thesis by (auto simp: Let_def)
  next
    case True
    show ?thesis
    proof (cases "filter_by_price (step_max_price st) (step_min_price st) rated")
      case (Inl e)
      with True assms r show ?thesis by (simp add: Let_def)
    next
      case (Inr filtered')
      then have "set filtered' \<subseteq> set ?valid"
        using rated filter_by_price_subset by fastforce
      with Inr True assms r show ?thesis by (auto simp: Let_def)
    qed
  qed
qed


lemma extraction_failed_result:
  "extraction_failed pg e h = (Inr items, h') \<Longrightarrow> items = []"
  by (auto simp: extraction_failed_def split: prod.splits sum.splits)

lemma handle_extract_products_result:
  assumes "handle_extract_products pg st h = (Inr items, h')"
  shows "items = [] \<or>
    (\<exists>raw h3. select_products st (case step_site st of None \<Rightarrow> ''flipkart'' | Some s \<Rightarrow> s)
        (case step_count st of None \<Rightarrow> 3 | Some c \<Rightarrow> c) raw h3 = (Inr items, h'))"
  using assms
  by (auto simp: handle_extract_products_def Let_def split: prod.splits sum.splits
      dest: extraction_failed_result)

lemmas conv_defs = py_int_def signed_digits_def number_text_def number_space_def py_str_def
  strip_def py_isspace_def is_digit_def digit_val_def nat_of_digits_def digit_char_def
  py_float_def unsigned_float_def exponent_mark_def round_ratio_def bit_length.simps Let_def

lemmas extract_defs = handle_extract_products_def extract_prelude_def select_products_def
  evaluate_def title_def extraction_failed_def wait_for_selector_def send_event_def sleep_def
  validate_products_def validate_product_def or_empty_def py_slice_to_def truthy_int_def
  truthy_rat_def Let_def

lemmas example_defs = page_returning_def blank_page_def extract_step_def empty_step_def
  laptop_def phone_def tablet_def cable_def cafe_def





text \<open>
  Claim C2, amended. When the requested count (3 when the step has none) is not negative,
  an \<open>extract_products\<close> step returns at most that many items: the first \<open>count\<close> of
  the items that passed validation and the filters. For a negative count the slice
  \<open>filtered[:count]\<close> drops items from the end instead, and the bound fails.
\<close>

theorem extract_count_bound:
  assumes "fst (handle_extract_products pg st h) = Inr items"
    and "count = (case step_count st of None \<Rightarrow> 3 | Some c \<Rightarrow> c)"
    and "site = (case step_site st of None \<Rightarrow> ''flipkart'' | Some s \<Rightarrow> s)"
    and "0 \<le> count"
  shows "int (length items) \<le> count \<and>
         (\<exists>raw survivors. set survivors \<subseteq> set (validate_products site raw) \<and>
            items = take (nat count) survivors)"
proof -
  obtain h' where run: "handle_extract_products pg st h = (Inr items, h')"
    using assms(1) by (cases "handle_extract_products pg st h") simp
  have kept: "\<exists>raw survivors. set survivors \<subseteq> set (validate_products site raw) \<and>
            items = take (nat count) survivors"
  proof (cases "items = []")
    case True
    then have "set [] \<subseteq> set (validate_products site []) \<and> items = take (nat count) []"
      by simp
    then show ?thesis by blast
  next
    case False
    with run obtain raw h3 where "select_products st site count raw h3 = (Inr items, h')"
      unfolding assms(2,3) using handle_extract_products_result by blast
    from select_products_shape [OF this] obtain filtered
      where f: "set filtered \<subseteq> set (validate_products site raw)"
        and i: "items = (if filtered \<noteq> [] then py_slice_to count filtered else [])"
      by blast
    from i assms(4) have "items = take (nat count) filtered"
      by (simp add: py_slice_to_def)
    with f show ?thesis by blast
  qed
  then have "int (length items) \<le> count"
    using assms(4) by auto
  with kept show ?thesis by simp
qed

lemma one_of_three:
  "fst (handle_extract_products (page_returning [laptop, phone, tablet])
          (extract_step ''flipkart'' 1) []) = Inr [laptop\<lparr> price := Some ''89990'' \<rparr>]"
  by (simp add: extract_defs example_defs conv_defs)

theorem extract_count_bound_witness:
  "int (length [laptop\<lparr> price := Some ''89990'' \<rparr>]) \<le> 1 \<and>
   (\<exists>raw survivors. set survivors \<subseteq> set (validate_products ''flipkart'' raw) \<and>
      [laptop\<lparr> price := Some ''89990'' \<rparr>] = take (nat 1) survivors)"
proof -
  have c: "1 = (case step_count (extract_step ''flipkart'' 1) of None \<Rightarrow> 3 | Some c \<Rightarrow> c)"
    by (simp add: extract_step_def empty_step_def)
  have s: "''flipkart'' =
      (case step_site (extract_step ''flipkart'' 1) of None \<Rightarrow> ''flipkart'' | Some s \<Rightarrow> s)"
    by (simp add: extract_step_def empty_step_def)
  have p: "(0::int) \<le> 1" by simp
  from extract_count_bound [OF one_of_three c s p] show ?thesis .
qed

text \<open>With a count of \<open>-1\<close> and three valid products the step returns two items.\<close>

theorem extract_count_bound_counterexample:
  "fst (handle_extract_products (page_returning [laptop, phone, tablet])
          (extract_step ''flipkart'' (- 1)) []) =
     Inr [laptop\<lparr> price := Some ''89990'' \<rparr>, phone\<lparr> rating := Some [], url := Some [] \<rparr>] \<and>
   \<not> int (length [laptop\<lparr> price := Some ''89990'' \<rparr>,
                    phone\<lparr> rating := Some [], url := Some [] \<rparr>]) \<le> - 1"
  by (simp add: extract_defs example_defs conv_defs)

lemma py_float_empty: "py_float [] = None"
  by (simp add: py_float_def number_text_def)

lemma filter_by_rating_convertible:
  "list_all convertible_rating ps \<Longrightarrow>
   filter_by_rating m ps = Inr (filter (rating_at_least m) ps)"
  by (induction ps)
     (auto simp: convertible_rating_def rating_at_least_def py_float_empty split: option.splits)

lemma filter_by_rating_raises:
  "\<not> list_all convertible_rating ps \<Longrightarrow> \<exists>e. filter_by_rating m ps = Inl e"
  by (induction ps)
     (auto simp: convertible_rating_def split: option.splits sum.splits)

text \<open>
  An \<open>extract_products\<close> step on \<open>zomato\<close> with a \<open>min_rating\<close> that is set and not
  zero, whose script returns and whose valid items all have a rating that is empty or converts
  with \<open>float\<close>: the items with a missing rating or a rating below the threshold are
  dropped, a \<open>filter_rating\<close> event reports how many survive, and only then the list is cut
  to the requested count.
\<close>

lemma rating_filter_reports:
  assumes site: "step_site st = Some ''zomato''"
    and min: "step_min_rating st = Some m" "m \<noteq> 0"
    and count: "count = (case step_count st of None \<Rightarrow> 3 | Some c \<Rightarrow> c)"
    and raw: "evaluate_answer pg (extract_prelude pg count h) Zomato_script = Inr raw"
    and conv: "list_all convertible_rating (validate_products ''zomato'' raw)"
    and survivors: "survivors = filter (rating_at_least m) (validate_products ''zomato'' raw)"
    and final: "final = (if survivors \<noteq> [] then py_slice_to count survivors else [])"
  shows "handle_extract_products pg st h =
           (Inr final,
            extract_prelude pg count h @
            [Evaluate Zomato_script True,
             Sent (Action ''filter_rating'' None (Filtered_restaurants (length survivors) m)),
             Sent (if final = [] then Warning No_valid_products
                   else Action_extracted (Extracted_valid (length final)) (length final)
                          (take 2 final))])"
proof -
  let ?h3 = "extract_prelude pg count h @ [Evaluate Zomato_script True]"
  have ev: "evaluate pg Zomato_script (extract_prelude pg count h) = (Inr raw, ?h3)"
    using raw by (simp add: evaluate_def)
  have f: "filter_by_rating m (validate_products ''zomato'' raw) = Inr survivors"
    using conv survivors by (simp add: filter_by_rating_convertible)
  have sel: "select_products st ''zomato'' count raw ?h3 =
      (Inr final,
       ?h3 @ [Sent (Action ''filter_rating'' None (Filtered_restaurants (length survivors) m)),
              Sent (if final = [] then Warning No_valid_products
                   else Action_extracted (Extracted_valid (length final)) (length final)
                          (take 2 final))])"
    using min f final by (simp add: select_products_def truthy_rat_def send_event_def Let_def)
  show ?thesis
    using site count ev sel by (simp add: handle_extract_products_def Let_def)
qed

lemmas rating_defs = rating_at_least_def convertible_rating_def restaurant_def rating_step_def
  five_restaurants_def

text \<open>Five restaurants, two of them rated 4.0 or more, threshold 4.0: two survive and the
  event reports 2.\<close>

lemma rating_filter_five_restaurants:
  "handle_extract_products (page_returning five_restaurants) (rating_step 4) [] =
     (Inr [restaurant ''Pizza Hub'' ''4.5'', restaurant ''Oven Story'' ''4.0''],
      [Sent (Action ''extract_products'' None (Extracting_top 3)),
       Wait_for_selector ''div[data-id], [class*='restaurant'], [class*='jumbo-tracker']''
         20000 False,
       Slept 2,
       Evaluate Zomato_script True,
       Sent (Action ''filter_rating'' None (Filtered_restaurants 2 4)),
       Sent (Action_extracted (Extracted_valid 2) 2
               [restaurant ''Pizza Hub'' ''4.5'', restaurant ''Oven Story'' ''4.0''])])"
proof -
  let ?two = "[restaurant ''Pizza Hub'' ''4.5'', restaurant ''Oven Story'' ''4.0'']"
  have site: "step_site (rating_step 4) = Some ''zomato''"
    by (simp add: rating_defs example_defs)
  have min: "step_min_rating (rating_step 4) = Some 4" "(4::rat) \<noteq> 0"
    by (simp_all add: rating_defs example_defs)
  have count: "3 = (case step_count (rating_step 4) of None \<Rightarrow> 3 | Some c \<Rightarrow> c)"
    by (simp add: rating_defs example_defs)
  have raw: "evaluate_answer (page_returning five_restaurants)
               (extract_prelude (page_returning five_restaurants) 3 []) Zomato_script =
             Inr five_restaurants"
    by (simp add: page_returning_def)
  have valid: "validate_products ''zomato'' five_restaurants = five_restaurants"
    by (simp add: extract_defs rating_defs conv_defs)
  have conv: "list_all convertible_rating (validate_products ''zomato'' five_restaurants)"
    unfolding valid by (simp add: rating_defs or_empty_def conv_defs)
  have survivors: "?two = filter (rating_at_least 4) (validate_products ''zomato'' five_restaurants)"
    unfolding valid by (simp add: rating_defs or_empty_def conv_defs)
  have final: "?two = (if ?two \<noteq> [] then py_slice_to 3 ?two else [])"
    by (simp add: py_slice_to_def)
  have prelude: "extract_prelude (page_returning five_restaurants) 3 [] =
      [Sent (Action ''extract_products'' None (Extracting_top 3)),
       Wait_for_selector ''div[data-id], [class*='restaurant'], [class*='jumbo-tracker']''
         20000 False,
       Slept 2]"
    by (simp add: extract_defs example_defs)
  from rating_filter_reports [OF site min count raw conv survivors final]
  show ?thesis unfolding prelude by simp
qed

text \<open>The threshold is compared with the double that \<open>float\<close> gives: a rating text
  \<open>3.9999999999999999\<close> is \<open>4.0\<close> and passes a threshold of 4.\<close>

lemma rating_rounds_to_threshold:
  "py_float ''3.9999999999999999'' = Some (Finite 4) \<and>
   handle_extract_products
     (page_returning [restaurant ''Pizza Hub'' ''3.9999999999999999'', restaurant ''Crust'' ''3.9''])
     (rating_step 4) [] =
     (Inr [restaurant ''Pizza Hub'' ''3.9999999999999999''],
      [Sent (Action ''extract_products'' None (Extracting_top 3)),
       Wait_for_selector ''div[data-id], [class*='restaurant'], [class*='jumbo-tracker']''
         20000 False,
       Slept 2,
       Evaluate Zomato_script True,
       Sent (Action ''filter_rating'' None (Filtered_restaurants 1 4)),
       Sent (Action_extracted (Extracted_valid 1) 1
               [restaurant ''Pizza Hub'' ''3.9999999999999999''])])"
  by (simp add: extract_defs example_defs rating_defs conv_defs)

section \<open>Properties of the rating extraction\<close>

lemma zomato_rating_in_range:
  "zomato_rating texts = Some m \<Longrightarrow> double_ge (parseFloat m) 1 \<and> double_le (parseFloat m) 5"
  by (induction texts rule: zomato_rating.induct) (auto split: option.splits if_splits)

lemmas script_defs = first_number_run_def digit_or_dot_def parseFloat_def

text \<open>The restaurant script accepts a text that Python's \<open>float\<close> rejects.\<close>

lemma zomato_accepts_trailing_dot: "zomato_rating [Some ''4.5.''] = Some ''4.5.''"
  by (simp add: script_defs conv_defs)

text \<open>
  Claim C6. On \<open>zomato\<close> with a \<open>min_rating\<close> the handler converts every rating that is not
  empty with \<open>float\<close>, inside the list comprehension and with no guard of its own: one
  rating that \<open>float\<close> rejects ends the whole step. The restaurant script returns the text
  \<open>4.5.\<close> for an element that reads so (its \<open>parseFloat\<close> check accepts it), and
  \<open>float\<close> raises on it. With two restaurants, one rated \<open>4.5\<close> and one \<open>4.5.\<close>, and a
  threshold of 4, the step sends no \<open>filter_rating\<close> event and returns no item; it ends with
  an Error event. The price conversion of the validation loop, a few lines above, is guarded
  item by item: the same restaurant with a price text that does not convert is kept. (When
  every rating converts, the filter drops, counts and reports as claimed:
  \<open>rating_filter_reports\<close>.)
\<close>

theorem rating_conversion_unguarded:
  "zomato_rating [Some ''4.5.''] = Some ''4.5.'' \<and>
   py_float ''4.5.'' = None \<and>
   validate_products ''zomato'' [(restaurant ''Slice of Rome'' ''4.5.'')\<lparr> price := Some ''N/A'' \<rparr>] =
     [restaurant ''Slice of Rome'' ''4.5.''] \<and>
   handle_extract_products
     (page_returning [restaurant ''Pizza Hub'' ''4.5'', restaurant ''Slice of Rome'' ''4.5.''])
     (rating_step 4) [] =
     (Inr [],
      [Sent (Action ''extract_products'' None (Extracting_top 3)),
       Wait_for_selector ''div[data-id], [class*='restaurant'], [class*='jumbo-tracker']''
         20000 False,
       Slept 2,
       Evaluate Zomato_script True,
       Title True,
       Sent (Error (Extraction_error (Could_not_convert ''4.5.'') ''Example''))])"
  by (simp add: script_defs extract_defs example_defs rating_defs conv_defs)

text \<open>
  Claim C7. The restaurant script accepts a rating only when its value lies in [1, 5]
  (\<open>zomato_rating_in_range\<close>); the product script has no such check. For a product
  container whose only rating element reads \<open>12,345 Ratings\<close> the product script sets the
  rating to \<open>12\<close>, which the restaurant script would refuse, and the item reaches the
  results with that rating.
\<close>

theorem flipkart_rating_unchecked:
  "flipkart_rating [None, None, None, Some ''12,345 Ratings''] = Some ''12'' \<and>
   parseFloat ''12'' = Finite 12 \<and>
   zomato_rating [Some ''12,345 Ratings''] = None \<and>
   fst (handle_extract_products
          (page_returning
             [\<lparr> name = Some ''MacBook Air M2'', price = Some ''89990'',
                rating = flipkart_rating [None, None, None, Some ''12,345 Ratings''],
                url = Some ''https://www.flipkart.com/p/1'' \<rparr>])
          (extract_step ''flipkart'' 3) []) =
     Inr [\<lparr> name = Some ''MacBook Air M2'', price = Some ''89990'', rating = Some ''12'',
            url = Some ''https://www.flipkart.com/p/1'' \<rparr>]"
  by (simp add: script_defs extract_defs example_defs conv_defs)

section \<open>Properties of the handlers and of the dispatcher\<close>

lemma handler_run_refl: "handler_run h h"
  by (simp add: handler_run_def)

lemma handler_run_trans: "handler_run h h1 \<Longrightarrow> handler_run h1 h2 \<Longrightarrow> handler_run h h2"
  by (auto simp: handler_run_def)

lemma handler_run_snoc: "step_effect e \<Longrightarrow> handler_run h h1 \<Longrightarrow> handler_run h (h1 @ [e])"
  by (auto simp: handler_run_def)

lemma handler_run_append:
  "list_all step_effect es \<Longrightarrow> handler_run h h1 \<Longrightarrow> handler_run h (h1 @ es)"
  by (auto simp: handler_run_def)

lemma handler_run_step: "step_effect e \<Longrightarrow> handler_run h (h @ [e])"
  by (simp add: handler_run_snoc handler_run_refl)

lemma exhausted_step_effects: "list_all step_effect (exhausted timeout sel)"
  by (simp add: exhausted_def)

lemma retried_step_effects: "list_all step_effect (retried timeout sel j)"
  by (auto simp: retried_def list_all_iff)

lemma try_selectors_handler_run: "handler_run h (snd (try_selectors pg timeout cs h))"
proof -
  have "list_all step_effect (concat (map (exhausted timeout) xs))" for xs
    by (induction xs) (simp_all add: exhausted_step_effects)
  then show ?thesis
    using try_selectors_shape [of pg timeout cs h]
    by (auto intro!: handler_run_append handler_run_refl simp: retried_step_effects)
qed

lemma find_selector_handler_run:
  "handler_run h (snd (find_selector_with_retry pg selectors timeout h))"
  unfolding find_selector_with_retry_def by (rule try_selectors_handler_run)

lemma sends: "step_effect (Sent (Action a t m))" "step_effect (Sent (Warning m))"
  "step_effect (Sent (Error m))" "step_effect (Sent (Action_extracted m n items))"
  by simp_all

lemma then_send: "step_effect (Sent e) \<Longrightarrow> handler_run h h1 \<Longrightarrow> handler_run h (send_event e h1)"
  by (simp add: send_event_def handler_run_snoc)

lemma then_sleep: "handler_run h h1 \<Longrightarrow> handler_run h (sleep n h1)"
  by (simp add: sleep_def handler_run_snoc)

lemma then_click: "click pg sel t h0 = (r, h1) \<Longrightarrow> handler_run h h0 \<Longrightarrow> handler_run h h1"
  by (auto simp: click_def Let_def handler_run_snoc)

lemma then_snd_click: "handler_run h h0 \<Longrightarrow> handler_run h (snd (click pg sel t h0))"
  by (auto simp: click_def Let_def handler_run_snoc)

lemma then_fill: "fill pg sel v t h0 = (r, h1) \<Longrightarrow> handler_run h h0 \<Longrightarrow> handler_run h h1"
  by (auto simp: fill_def Let_def handler_run_snoc)

lemma then_press: "press pg k h0 = (r, h1) \<Longrightarrow> handler_run h h0 \<Longrightarrow> handler_run h h1"
  by (auto simp: press_def Let_def handler_run_snoc)

lemma then_type_text:
  "type_text pg sel v d h0 = (r, h1) \<Longrightarrow> handler_run h h0 \<Longrightarrow> handler_run h h1"
  by (auto simp: type_text_def Let_def handler_run_snoc)

lemma then_load:
  "wait_for_load_state pg st t h0 = (r, h1) \<Longrightarrow> handler_run h h0 \<Longrightarrow> handler_run h h1"
  by (auto simp: wait_for_load_state_def Let_def handler_run_snoc)

lemma then_snd_load:
  "handler_run h h0 \<Longrightarrow> handler_run h (snd (wait_for_load_state pg st t h0))"
  by (auto simp: wait_for_load_state_def Let_def handler_run_snoc)

lemma then_goto: "goto pg u w t h0 = (r, h1) \<Longrightarrow> handler_run h h0 \<Longrightarrow> handler_run h h1"
  by (auto simp: goto_def Let_def handler_run_snoc)

lemma then_title: "title pg h0 = (r, h1) \<Longrightarrow> handler_run h h0 \<Longrightarrow> handler_run h h1"
  by (auto simp: title_def Let_def handler_run_snoc)

lemma then_evaluate: "evaluate pg sc h0 = (r, h1) \<Longrightarrow> handler_run h h0 \<Longrightarrow> handler_run h h1"
  by (auto simp: evaluate_def Let_def handler_run_snoc)

lemma then_wait:
  "wait_for_selector pg sel t h0 = (r, h1) \<Longrightarrow> handler_run h h0 \<Longrightarrow> handler_run h h1"
  by (auto simp: wait_for_selector_def Let_def handler_run_snoc)

lemma then_snd_wait: "handler_run h h0 \<Longrightarrow> handler_run h (snd (wait_for_selector pg sel t h0))"
  by (auto simp: wait_for_selector_def Let_def handler_run_snoc)

lemma then_find:
  "find_selector_with_retry pg sels t h0 = (r, h1) \<Longrightarrow> handler_run h h0 \<Longrightarrow> handler_run h h1"
  using find_selector_handler_run [of h0 pg sels t] handler_run_trans by fastforce

lemmas then_rules = sends then_send then_sleep then_click then_snd_click then_fill then_press
  then_type_text then_load then_snd_load then_goto then_title then_evaluate then_wait
  then_snd_wait then_find handler_run_refl

lemma handle_navigate_run: "handler_run h (snd (handle_navigate pg st h))"
proof -
  let ?h1 = "send_event (Action ''navigate'' (step_url st) (Navigating_to (step_url st))) h"
  let ?w = "case step_wait_until st of None \<Rightarrow> ''networkidle'' | Some w \<Rightarrow> w"
  obtain r h2 where g: "goto pg (step_url st) ?w 30000 ?h1 = (r, h2)"
    by (cases "goto pg (step_url st) ?w 30000 ?h1") auto
  obtain r' h3 where t: "title pg h2 = (r', h3)"
    by (cases "title pg h2") auto
  have 2: "handler_run h h2"
    using g by (rule then_goto) (simp add: then_send handler_run_refl)
  have 3: "handler_run h h3" using t 2 by (rule then_title)
  show ?thesis
    unfolding handle_navigate_def Let_def using g t 2 3
    by (auto simp: then_send split: option.splits exn.splits sum.splits)
qed

lemma handle_wait_for_run: "handler_run h (snd (handle_wait_for pg st h))"
proof (cases "step_selector st")
  case None
  then show ?thesis by (simp add: handle_wait_for_def handler_run_refl)
next
  case (Some sel)
  let ?t = "case step_timeout st of None \<Rightarrow> 10000 | Some t \<Rightarrow> t"
  obtain r h1 where f: "find_selector_with_retry pg sel ?t h = (r, h1)"
    by (cases "find_selector_with_retry pg sel ?t h") auto
  have 1: "handler_run h h1" using f handler_run_refl by (rule then_find)
  show ?thesis
    using Some f 1 by (cases r) (simp_all add: handle_wait_for_def then_send)
qed

lemma handle_type_run: "handler_run h (snd (handle_type pg st h))"
proof -
  let ?sel = "strip (first_piece (or_empty (step_selector st)))"
  let ?v = "or_empty (step_value st)"
  obtain r h1 where f: "find_selector_with_retry pg ?sel 10000 h = (r, h1)"
    by (cases "find_selector_with_retry pg ?sel 10000 h") auto
  let ?cleared = "if step_clear_first st then fill pg ?sel [] None h1 else (None, h1)"
  obtain r2 h2 where c: "?cleared = (r2, h2)" by (cases ?cleared) auto
  obtain r3 h3 where t: "type_text pg ?sel ?v 50 (snd (click pg (Css ?sel) (Some 2000) h2)) = (r3, h3)"
    by (cases "type_text pg ?sel ?v 50 (snd (click pg (Css ?sel) (Some 2000) h2))") auto
  have 1: "handler_run h h1" using f handler_run_refl by (rule then_find)
  have 2: "handler_run h h2"
    using c 1 by (auto split: if_splits intro: then_fill)
  have 3: "handler_run h h3"
    using t by (rule then_type_text) (simp add: then_snd_click 2)
  show ?thesis
    unfolding handle_type_def Let_def using f c t 1 2 3
    by (cases r; cases r2; cases r3) (simp_all add: then_send)
qed

lemma click_first_run: "handler_run h0 h \<Longrightarrow> handler_run h0 (snd (click_first pg sels h))"
proof (induction sels arbitrary: h)
  case Nil
  then show ?case by simp
next
  case (Cons sel sels)
  obtain r h1 where c: "click pg (Css sel) (Some 5000) h = (r, h1)" by fastforce
  then have "handler_run h0 h1" using Cons.prems by (rule then_click)
  then show ?case using c Cons.IH by (cases r) simp_all
qed

lemma then_click_first:
  "click_first pg sels h0 = (r, h1) \<Longrightarrow> handler_run h h0 \<Longrightarrow> handler_run h h1"
  using click_first_run [of h h0 pg sels] by simp

lemma handle_click_run: "handler_run h (snd (handle_click pg st h))"
proof -
  let ?sels = "map strip (split_comma (or_empty (step_selector st)))"
  obtain clicked h1 where c: "click_first pg ?sels h = (clicked, h1)"
    by (cases "click_first pg ?sels h") auto
  obtain r2 h2 where p: "press pg ''Enter'' h1 = (r2, h2)"
    by (cases "press pg ''Enter'' h1") auto
  have 1: "handler_run h h1" using c handler_run_refl by (rule then_click_first)
  have 2: "handler_run h h2" using p 1 by (rule then_press)
  let ?h3 = "if clicked then send_event (Action ''click'' None Clicked_msg) h1
             else send_event (Action ''click'' None Pressed_Enter) h2"
  obtain r4 h4 where l: "wait_for_load_state pg (or_empty (step_wait_after st)) 15000 ?h3 = (r4, h4)"
    by (cases "wait_for_load_state pg (or_empty (step_wait_after st)) 15000 ?h3") auto
  have 3: "handler_run h ?h3" using 1 2 by (simp add: then_send)
  have 4: "handler_run h h4" using l 3 by (rule then_load)
  show ?thesis
    unfolding handle_click_def using c p l 1 2 3 4
    by (cases clicked; cases r2; cases r4) (simp_all add: then_send then_sleep)
qed

lemma price_inputs_run: "handler_run h0 h \<Longrightarrow> handler_run h0 (price_inputs pg max_p sels h)"
proof (induction sels arbitrary: h)
  case Nil
  then show ?case by simp
next
  case (Cons sel sels)
  obtain r h1 where f: "fill pg (first_piece sel) (py_str (the max_p)) (Some 3000) h = (r, h1)"
    by fastforce
  obtain r' h2 where p: "press pg ''Enter'' h1 = (r', h2)" by fastforce
  have h1: "handler_run h0 h1" using f Cons.prems by (rule then_fill)
  have h2: "handler_run h0 h2" using p h1 by (rule then_press)
  show ?case
    using f p h1 h2 Cons.IH Cons.prems by (cases r; cases r') simp_all
qed

lemma handle_filter_price_run: "handler_run h (snd (handle_filter_price pg st h))"
proof -
  let ?h2 = "price_inputs pg (step_max_price st)
               [''input[placeholder*='Max']'', ''input._2IX2F-:last-of-type'']
               (sleep 1 (send_event (Action ''filter_price'' None
                  (Filtering (step_min_price st) (step_max_price st))) h))"
  obtain r h3 where l: "wait_for_load_state pg ''networkidle'' 10000 ?h2 = (r, h3)"
    by (cases "wait_for_load_state pg ''networkidle'' 10000 ?h2") auto
  have 2: "handler_run h ?h2"
    by (intro price_inputs_run then_sleep then_send handler_run_refl) simp
  have 3: "handler_run h h3" using l 2 by (rule then_load)
  show ?thesis
    unfolding handle_filter_price_def Let_def using l 3
    by (cases r) (simp_all add: then_sleep)
qed

lemma rating_controls_run: "handler_run h0 h \<Longrightarrow> handler_run h0 (rating_controls pg sels h)"
proof (induction sels arbitrary: h)
  case Nil
  then show ?case by simp
next
  case (Cons sel sels)
  obtain r h1 where c: "click pg sel (Some 3000) h = (r, h1)" by fastforce
  obtain r' h2 where l: "wait_for_load_state pg ''networkidle'' 10000 h1 = (r', h2)"
    by fastforce
  have h1: "handler_run h0 h1" using c Cons.prems by (rule then_click)
  have h2: "handler_run h0 h2" using l h1 by (rule then_load)
  show ?case
    using c l h1 h2 Cons.IH by (cases r; cases r') simp_all
qed

lemma handle_filter_rating_run: "handler_run h (snd (handle_filter_rating pg st h))"
  unfolding handle_filter_rating_def snd_conv
  by (intro rating_controls_run then_send handler_run_refl) simp

lemma handle_fill_form_field_run: "handler_run h (snd (handle_fill_form_field rnd pg st h))"
proof -
  let ?f = "case step_field_name st of None \<Rightarrow> ''None'' | Some f \<Rightarrow> f"
  let ?generate = "or_empty (step_value st) = [] \<or> step_generate_if_needed st"
  let ?v = "if ?generate then generated_value rnd ?f h else or_empty (step_value st)"
  obtain r h1 where f: "find_selector_with_retry pg (join_comma (field_selectors ?f)) 10000 h = (r, h1)"
    by (cases "find_selector_with_retry pg (join_comma (field_selectors ?f)) 10000 h") auto
  obtain r2 h2 where fl: "fill pg (field_selectors ?f ! 0) ?v None h1 = (r2, h2)"
    by (cases "fill pg (field_selectors ?f ! 0) ?v None h1") auto
  have 1: "handler_run h h1" using f handler_run_refl by (rule then_find)
  have 2: "handler_run h h2" using fl 1 by (rule then_fill)
  show ?thesis
    unfolding handle_fill_form_field_def Let_def using f fl 1 2
    by (cases r; cases r2) (simp_all add: then_send handler_run_refl)
qed

lemma handle_submit_form_run: "handler_run h (snd (handle_submit_form pg st h))"
proof -
  obtain r h1 where f: "find_selector_with_retry pg submit_selectors 10000 h = (r, h1)"
    by (cases "find_selector_with_retry pg submit_selectors 10000 h") auto
  let ?act = "case r of Some el \<Rightarrow> click pg (Css (first_piece submit_selectors)) None h1
              | None \<Rightarrow> press pg ''Enter'' h1"
  obtain r2 h2 where a: "?act = (r2, h2)" by (cases ?act) auto
  have 1: "handler_run h h1" using f handler_run_refl by (rule then_find)
  have 2: "handler_run h h2"
    using a 1 by (cases r) (auto intro: then_click then_press)
  have 3: "\<And>w. handler_run h (snd (wait_for_load_state pg w 15000
              (send_event (Action ''submit_form'' None Form_submitted) h2)))"
    using 2 by (intro then_snd_load then_send) simp_all
  show ?thesis
    unfolding handle_submit_form_def using f a 2 3
    by (cases r; cases r2) simp_all
qed

lemma extraction_failed_run:
  assumes "handler_run h h0"
  shows "handler_run h (snd (extraction_failed pg e h0))"
proof -
  obtain r h1 where t: "title pg h0 = (r, h1)" by (cases "title pg h0") auto
  have 1: "handler_run h h1" using t assms by (rule then_title)
  show ?thesis
    unfolding extraction_failed_def using t 1 by (cases r) (simp_all add: then_send)
qed

lemma select_products_run:
  assumes "handler_run h h0"
  shows "handler_run h (snd (select_products st site count raw h0))"
proof -
  have a: "\<And>e. step_effect (Sent e) \<Longrightarrow> handler_run h (send_event e h0)"
    using assms by (simp add: then_send)
  have b: "\<And>e e'. step_effect (Sent e) \<Longrightarrow> step_effect (Sent e') \<Longrightarrow>
      handler_run h (send_event e' (send_event e h0))"
    using assms by (simp add: then_send)
  show ?thesis
    unfolding select_products_def Let_def
    using assms a b by (simp split: sum.splits)
qed

lemma extract_prelude_run: "handler_run h (extract_prelude pg count h)"
  unfolding extract_prelude_def Let_def
  by (simp add: then_sleep then_snd_wait then_send handler_run_refl)

lemma handle_extract_products_run: "handler_run h (snd (handle_extract_products pg st h))"
proof -
  let ?count = "case step_count st of None \<Rightarrow> 3 | Some c \<Rightarrow> c"
  let ?site = "case step_site st of None \<Rightarrow> ''flipkart'' | Some s \<Rightarrow> s"
  let ?sc = "if ?site = ''zomato'' then Zomato_script else Flipkart_script"
  obtain r h3 where ev: "evaluate pg ?sc (extract_prelude pg ?count h) = (r, h3)"
    by fastforce
  have h3: "handler_run h h3"
    using ev extract_prelude_run by (rule then_evaluate)
  show ?thesis
  proof (cases r)
    case (Inl e)
    with ev h3 show ?thesis
      by (simp add: handle_extract_products_def Let_def extraction_failed_run)
  next
    case (Inr raw)
    obtain r' h4 where sel: "select_products st ?site ?count raw h3 = (r', h4)"
      by fastforce
    have h4: "handler_run h h4"
      using select_products_run [OF h3, of st ?site ?count raw] sel by simp
    show ?thesis
      using ev Inr sel h4
      by (cases r') (simp_all add: handle_extract_products_def Let_def extraction_failed_run)
  qed
qed

lemma dispatch_run: "handler_run h (snd (dispatch rnd pg st h))"
  by (simp add: dispatch_def Let_def no_items_def handle_navigate_run handle_wait_for_run
      handle_type_run handle_click_run handle_filter_price_run handle_filter_rating_run
      handle_extract_products_run handle_fill_form_field_run handle_submit_form_run
      then_send handler_run_refl)

lemma started_append: "started (a @ b) = started a @ started b"
  by (induction a rule: started.induct) simp_all

lemma completed_append: "completed (a @ b) = completed a @ completed b"
  by (induction a rule: completed.induct) simp_all

lemma step_effects_no_lifecycle:
  "list_all step_effect app \<Longrightarrow> started app = [] \<and> completed app = []"
proof (induction app)
  case Nil
  show ?case by simp
next
  case (Cons a app)
  then show ?case by (cases a rule: step_effect.cases) simp_all
qed

lemma dispatch_appends:
  "\<exists>app. snd (dispatch rnd pg st h) = h @ app \<and> list_all step_effect app"
  using dispatch_run [of h rnd pg st] by (simp add: handler_run_def)

lemma run_steps_append:
  assumes "\<forall>st \<in> set pre. step_action st \<noteq> Some ''unsupported''"
  shows "run_steps rnd pg n idx (pre @ rest) rs h =
           run_steps rnd pg n (idx + length pre) rest
             (fst (run_steps rnd pg n idx pre rs h)) (snd (run_steps rnd pg n idx pre rs h))"
  using assms
proof (induction pre arbitrary: idx rs h)
  case Nil
  show ?case by simp
next
  case (Cons st pre)
  then show ?case
    by (cases "dispatch rnd pg st (send_event (Action_start (step_action st) (idx + 1) n) h)")
       (auto simp: Let_def split: sum.splits)
qed

lemma run_steps_started:
  assumes "\<forall>st \<in> set pre. step_action st \<noteq> Some ''unsupported''"
  shows "started (snd (run_steps rnd pg n idx pre rs h)) =
           started h @ [idx + 1 ..< idx + length pre + 1]"
  using assms
proof (induction pre arbitrary: idx rs h)
  case Nil
  show ?case by simp
next
  case (Cons st pre)
  let ?h1 = "send_event (Action_start (step_action st) (idx + 1) n) h"
  obtain r h2 where d: "dispatch rnd pg st ?h1 = (r, h2)"
    by (cases "dispatch rnd pg st ?h1") auto
  obtain app where app: "h2 = ?h1 @ app" "list_all step_effect app"
    using dispatch_appends [of rnd pg st ?h1] d by auto
  have s: "started h2 = started h @ [idx + 1]"
    using app step_effects_no_lifecycle [of app]
    by (simp add: started_append send_event_def)
  have u: "[idx + 1 ..< idx + length (st # pre) + 1] = (idx + 1) # [idx + 1 + 1 ..< idx + 1 + length pre + 1]"
    by (simp add: upt_rec)
  show ?case
    using Cons d s unfolding u
    by (cases r) (simp_all add: Let_def started_append send_event_def)
qed

lemmas handler_defs = handle_fill_form_field_def handle_type_def handle_filter_rating_def
  dispatch_def no_items_def run_action_plan_def generated_value_def field_selectors_def
  first_piece_def fill_def click_def press_def type_text_def wait_for_load_state_def
  goto_def

lemmas dispatcher_examples = fixed_random_def session_on_def field_step_def type_step_def
  unsupported_step_def rating_filter_step_def page_with_id_only_def page_showing_def

text \<open>
  Claim C5. In a run whose session starts, a plan whose first \<open>unsupported\<close> step comes
  after the steps \<open>pre\<close> runs \<open>pre\<close>, then sends the \<open>action_start\<close> of that step and one
  \<open>error\<close> event whose message is the step's reason, and stops: the closing Status event
  follows, and the steps started are exactly \<open>1, ..., length pre + 1\<close>. The Error event
  carries the reason alone; it belongs to the step by its place, right after the step's
  \<open>action_start\<close>.
\<close>

theorem unsupported_step_stops_run:
  assumes "step_action u = Some ''unsupported''"
    and "\<forall>st \<in> set pre. step_action st \<noteq> Some ''unsupported''"
    and "start_answer s = None" "launch_answer s = None" "new_page_answer s = None"
    and "before = run_steps (session_random s) (session_page s) (length (pre @ u # post)) 0 pre []
                    [Sent (Status (Text ''Browser initialized'') ''ready'')]"
  shows "run_action_plan s (pre @ u # post) =
           (fst before,
            snd before @
            [Sent (Action_start (Some ''unsupported'') (length pre + 1) (length (pre @ u # post))),
             Sent (Error (Text (case step_reason u of None \<Rightarrow> ''Unsupported action''
                                | Some r \<Rightarrow> r))),
             Sent (Status (Text ''Task completed'') ''completed''),
             Slept 1, Browser_closed]) \<and>
         started (snd (run_action_plan s (pre @ u # post))) = [1 ..< length pre + 2]"
proof -
  let ?n = "length (pre @ u # post)"
  let ?run = "run_steps (session_random s) (session_page s) ?n"
  have split: "?run 0 (pre @ u # post) [] [Sent (Status (Text ''Browser initialized'') ''ready'')] =
               ?run (0 + length pre) (u # post) (fst before) (snd before)"
    unfolding assms(6) using assms(2) by (rule run_steps_append)
  have stop: "?run (0 + length pre) (u # post) (fst before) (snd before) =
      (fst before,
       snd before @
       [Sent (Action_start (Some ''unsupported'') (length pre + 1) ?n),
        Sent (Error (Text (case step_reason u of None \<Rightarrow> ''Unsupported action''
                           | Some r \<Rightarrow> r)))])"
    using assms(1) by (simp add: Let_def send_event_def)
  have run: "run_action_plan s (pre @ u # post) =
           (fst before,
            snd before @
            [Sent (Action_start (Some ''unsupported'') (length pre + 1) ?n),
             Sent (Error (Text (case step_reason u of None \<Rightarrow> ''Unsupported action''
                                | Some r \<Rightarrow> r))),
             Sent (Status (Text ''Task completed'') ''completed''),
             Slept 1, Browser_closed])"
    unfolding run_action_plan_def using assms(3-5) split stop
    by (simp add: send_event_def del: run_steps.simps)
  have "started (snd before) = [0 + 1 ..< 0 + length pre + 1]"
    unfolding assms(6) using run_steps_started [OF assms(2), of "session_random s"
        "session_page s" ?n 0 "[]" "[Sent (Status (Text ''Browser initialized'') ''ready'')]"]
    by simp
  then have "started (snd (run_action_plan s (pre @ u # post))) =
      [1 ..< length pre + 1] @ [length pre + 1]"
    unfolding run by (simp add: started_append)
  also have "\<dots> = [1 ..< length pre + 2]"
    by (simp add: upt_Suc_append [symmetric] del: upt_Suc)
  finally show ?thesis using run by simp
qed

text \<open>
  Five steps, the second unsupported: steps 1 and 2 start, one Error event with the reason
  follows the second start, and steps 3 to 5 never start.
\<close>

theorem unsupported_step_stops_run_witness:
  "run_action_plan (session_on blank_page) five_step_plan =
     ([],
      [Sent (Status (Text ''Browser initialized'') ''ready''),
       Sent (Action_start (Some ''filter_rating'') 1 5),
       Sent (Action ''filter_rating'' None (Rating_plus (Some 4))),
       Click (Star_label (Some 4)) (Some 3000) True,
       Wait_for_load_state ''networkidle'' 10000 True,
       Sent (Action_complete (Some ''filter_rating'')),
       Sent (Action_start (Some ''unsupported'') 2 5),
       Sent (Error (Text ''Intent not handled yet'')),
       Sent (Status (Text ''Task completed'') ''completed''),
       Slept 1, Browser_closed]) \<and>
   started (snd (run_action_plan (session_on blank_page) five_step_plan)) = [1, 2]"
proof -
  let ?u = "unsupported_step ''Intent not handled yet''"
  let ?post = "[type_step ''#q'' ''pizza'', field_step ''email'' ''user@example.org'',
                rating_filter_step]"
  have plan: "five_step_plan = [rating_filter_step] @ ?u # ?post"
    by (simp add: five_step_plan_def)
  have u: "step_action ?u = Some ''unsupported''"
    by (simp add: dispatcher_examples example_defs)
  have pre: "\<forall>st \<in> set [rating_filter_step]. step_action st \<noteq> Some ''unsupported''"
    by (simp add: dispatcher_examples example_defs)
  have s: "start_answer (session_on blank_page) = None"
    "launch_answer (session_on blank_page) = None"
    "new_page_answer (session_on blank_page) = None"
    by (simp_all add: session_on_def)
  have before: "([],
      [Sent (Status (Text ''Browser initialized'') ''ready''),
       Sent (Action_start (Some ''filter_rating'') 1 5),
       Sent (Action ''filter_rating'' None (Rating_plus (Some 4))),
       Click (Star_label (Some 4)) (Some 3000) True,
       Wait_for_load_state ''networkidle'' 10000 True,
       Sent (Action_complete (Some ''filter_rating''))]) =
     run_steps (session_random (session_on blank_page)) (session_page (session_on blank_page))
       (length ([rating_filter_step] @ ?u # ?post)) 0 [rating_filter_step] []
       [Sent (Status (Text ''Browser initialized'') ''ready'')]"
    by (simp add: handler_defs dispatcher_examples example_defs send_event_def Let_def)
  from unsupported_step_stops_run [OF u pre s before]
  show ?thesis
    unfolding plan by (simp add: dispatcher_examples example_defs upt_rec)
qed

text \<open>
  Claim C4, amended. A step that is not \<open>unsupported\<close> begins with its \<open>action_start\<close>
  event; its handler then adds effects among which the only events are \<open>action\<close>,
  \<open>warning\<close> and \<open>error\<close> events. When the handler returns, \<open>action_complete\<close> follows
  and the loop goes on. When the handler raises, an \<open>error\<close> event with the action and the
  exception text follows and the loop goes on with the next step: no \<open>action_complete\<close> is
  sent for the failed step.
\<close>

theorem step_events_in_order:
  assumes "step_action st \<noteq> Some ''unsupported''"
    and "start = Sent (Action_start (step_action st) (idx + 1) n)"
  shows "\<exists>app. list_all step_effect app \<and>
      ((\<exists>items.
          dispatch rnd pg st (h @ [start]) = (Inr items, h @ start # app) \<and>
          run_steps rnd pg n idx (st # steps) rs h =
            run_steps rnd pg n (idx + 1) steps (rs @ items)
              (h @ start # app @ [Sent (Action_complete (step_action st))]) \<and>
          completed (h @ start # app @ [Sent (Action_complete (step_action st))]) =
            completed h @ [step_action st]) \<or>
       (\<exists>e.
          dispatch rnd pg st (h @ [start]) = (Inl e, h @ start # app) \<and>
          run_steps rnd pg n idx (st # steps) rs h =
            run_steps rnd pg n (idx + 1) steps rs
              (h @ start # app @ [Sent (Error (Error_in (step_action st) (str_of_exn e)))]) \<and>
          completed (h @ start # app @
                     [Sent (Error (Error_in (step_action st) (str_of_exn e)))]) =
            completed h))"
proof -
  obtain r h2 where d: "dispatch rnd pg st (h @ [start]) = (r, h2)"
    by (cases "dispatch rnd pg st (h @ [start])") auto
  obtain app where app: "h2 = (h @ [start]) @ app" "list_all step_effect app"
    using dispatch_appends [of rnd pg st "h @ [start]"] d by auto
  have none: "completed app = []" using app(2) step_effects_no_lifecycle by blast
  have s: "completed [start] = []" by (simp add: assms(2))
  show ?thesis
  proof (cases r)
    case (Inr items)
    have "dispatch rnd pg st (h @ [start]) = (Inr items, h @ start # app) \<and>
          run_steps rnd pg n idx (st # steps) rs h =
            run_steps rnd pg n (idx + 1) steps (rs @ items)
              (h @ start # app @ [Sent (Action_complete (step_action st))]) \<and>
          completed (h @ start # app @ [Sent (Action_complete (step_action st))]) =
            completed h @ [step_action st]"
      using d Inr app(1) assms none s completed_append [of h "start # app @ [Sent (Action_complete (step_action st))]"]
        completed_append [of "[start]" "app @ [Sent (Action_complete (step_action st))]"]
        completed_append [of app "[Sent (Action_complete (step_action st))]"]
      by (simp add: Let_def send_event_def)
    with app(2) show ?thesis by blast
  next
    case (Inl e)
    have "dispatch rnd pg st (h @ [start]) = (Inl e, h @ start # app) \<and>
          run_steps rnd pg n idx (st # steps) rs h =
            run_steps rnd pg n (idx + 1) steps rs
              (h @ start # app @ [Sent (Error (Error_in (step_action st) (str_of_exn e)))]) \<and>
          completed (h @ start # app @
                     [Sent (Error (Error_in (step_action st) (str_of_exn e)))]) =
            completed h"
      using d Inl app(1) assms none s
        completed_append [of h "start # app @ [Sent (Error (Error_in (step_action st) (str_of_exn e)))]"]
        completed_append [of "[start]" "app @ [Sent (Error (Error_in (step_action st) (str_of_exn e)))]"]
        completed_append [of app "[Sent (Error (Error_in (step_action st) (str_of_exn e)))]"]
      by (simp add: Let_def send_event_def)
    with app(2) show ?thesis by blast
  qed
qed

lemma blank_page_never:
  "\<forall>h. isl (wait_for_selector_answer blank_page h sel timeout)"
  by (simp add: blank_page_def)

lemma blank_page_finds_nothing:
  "find_selector_with_retry blank_page selectors timeout h =
     (None, h @ concat (map (exhausted timeout) (map strip (split_comma selectors))))"
  unfolding find_selector_with_retry_def
  using try_selectors_exhaust [of "map strip (split_comma selectors)" blank_page timeout "[]" h]
    blank_page_never
  by simp

lemma blank_page_answers:
  "goto_answer blank_page h u w t = None"
  "title_answer blank_page h = Inr ''Example''"
  "click_answer blank_page h c ct = None"
  "fill_answer blank_page h sel v ft = None"
  "type_answer blank_page h sel v d = None"
  "press_answer blank_page h k = None"
  "wait_for_load_state_answer blank_page h ls t = None"
  "evaluate_answer blank_page h sc = Inr []"
  by (simp_all add: blank_page_def)

lemmas plan_defs = fixed_random_def session_on_def field_step_def type_step_def
  unsupported_step_def rating_filter_step_def empty_step_def

text \<open>
  A \<open>type\<close> step whose input never shows: the handler raises, the dispatcher reports the
  error and the run completes without any \<open>action_complete\<close> event.
\<close>

theorem step_events_in_order_counterexample:
  "run_action_plan (session_on blank_page) [type_step ''#q'' ''pizza''] =
     ([],
      [Sent (Status (Text ''Browser initialized'') ''ready''),
       Sent (Action_start (Some ''type'') 1 1),
       Wait_for_selector ''#q'' 10000 False, Slept 1,
       Wait_for_selector ''#q'' 10000 False, Slept 2,
       Wait_for_selector ''#q'' 10000 False,
       Sent (Error (Error_in (Some ''type'') (Input_not_found ''#q''))),
       Sent (Status (Text ''Task completed'') ''completed''),
       Slept 1, Browser_closed]) \<and>
   completed (snd (run_action_plan (session_on blank_page) [type_step ''#q'' ''pizza''])) = []"
  by (simp add: handler_defs plan_defs send_event_def Let_def
      blank_page_finds_nothing blank_page_answers exhausted_def or_empty_def strip_def
      py_isspace_def)

theorem step_events_in_order_witness:
  "completed (snd (run_steps fixed_random blank_page 2 0 [rating_filter_step] [] [])) =
     [Some ''filter_rating''] \<and>
   completed (snd (run_steps fixed_random blank_page 2 1 [type_step ''#q'' ''pizza''] [] [])) = []"
proof -
  have a: "step_action rating_filter_step \<noteq> Some ''unsupported''"
    "step_action (type_step ''#q'' ''pizza'') \<noteq> Some ''unsupported''"
    by (simp_all add: plan_defs)
  have d1: "\<And>h. fst (dispatch fixed_random blank_page rating_filter_step h) = Inr []"
    by (simp add: handler_defs plan_defs)
  have d2: "\<And>h. fst (dispatch fixed_random blank_page (type_step ''#q'' ''pizza'') h) =
      Inl (Exception (Input_not_found ''#q''))"
    by (simp add: handler_defs plan_defs blank_page_finds_nothing or_empty_def strip_def
        py_isspace_def Let_def)
  from step_events_in_order [OF a(1) refl, of fixed_random blank_page "[]" 0 2 "[]" "[]"]
    d1 [of "[Sent (Action_start (Some ''filter_rating'') (Suc 0) 2)]"]
  have 1: "completed (snd (run_steps fixed_random blank_page 2 0 [rating_filter_step] [] [])) =
      [Some ''filter_rating'']"
    by (auto simp: plan_defs simp del: run_steps.simps(2))
  from step_events_in_order [OF a(2) refl, of fixed_random blank_page "[]" 1 2 "[]" "[]"]
    d2 [of "[Sent (Action_start (Some ''type'') (Suc (Suc 0)) 2)]"]
  have 2: "completed (snd (run_steps fixed_random blank_page 2 1 [type_step ''#q'' ''pizza''] []
      [])) = []"
    by (auto simp: plan_defs simp del: run_steps.simps(2))
  from 1 2 show ?thesis by simp
qed

text \<open>
  Claim C9, amended. When none of the candidate selectors of a \<open>fill_form_field\<close> step
  resolves, the handler sends a Warning event (\<open>Field not found\<close>) and returns; the
  dispatcher then sends \<open>action_complete\<close> and goes on. No exception is raised and no Error
  event is sent.
\<close>

theorem field_not_found_warns:
  assumes "step_action st = Some ''fill_form_field''" "step_field_name st = Some f"
    and "start = Sent (Action_start (step_action st) (idx + 1) n)"
    and "find_selector_with_retry pg (join_comma (field_selectors f)) 10000 (h @ [start]) =
           (None, h1)"
  shows "handle_fill_form_field rnd pg st (h @ [start]) =
           (None, h1 @ [Sent (Warning (Field_not_found f))]) \<and>
         run_steps rnd pg n idx (st # steps) rs h =
           run_steps rnd pg n (idx + 1) steps rs
             (h1 @ [Sent (Warning (Field_not_found f)),
                    Sent (Action_complete (Some ''fill_form_field''))])"
proof -
  have w: "handle_fill_form_field rnd pg st (h @ [start]) =
           (None, h1 @ [Sent (Warning (Field_not_found f))])"
    using assms(2,4) by (simp add: handle_fill_form_field_def Let_def send_event_def)
  then have "dispatch rnd pg st (h @ [start]) =
           (Inr [], h1 @ [Sent (Warning (Field_not_found f))])"
    using assms(1) by (simp add: dispatch_def no_items_def)
  then show ?thesis
    using w assms(1,3) by (simp add: Let_def send_event_def)
qed

lemma email_selectors:
  "map strip (split_comma (join_comma (field_selectors ''email''))) = field_selectors ''email''"
  by (simp add: field_selectors_def strip_def py_isspace_def)

theorem field_not_found_warns_witness:
  "handle_fill_form_field fixed_random blank_page (field_step ''email'' ''user@example.org'')
     ([] @ [Sent (Action_start (Some ''fill_form_field'') (0 + 1) 1)]) =
     (None,
      (Sent (Action_start (Some ''fill_form_field'') (0 + 1) 1) #
       concat (map (exhausted 10000) (field_selectors ''email''))) @
      [Sent (Warning (Field_not_found ''email''))])"
proof -
  let ?st = "field_step ''email'' ''user@example.org''"
  have a: "step_action ?st = Some ''fill_form_field''" "step_field_name ?st = Some ''email''"
    by (simp_all add: plan_defs)
  have s: "Sent (Action_start (Some ''fill_form_field'') (0 + 1) 1) =
           Sent (Action_start (step_action ?st) (0 + 1) 1)"
    by (simp add: plan_defs)
  have f: "find_selector_with_retry blank_page (join_comma (field_selectors ''email'')) 10000
             ([] @ [Sent (Action_start (Some ''fill_form_field'') (0 + 1) 1)]) =
           (None, Sent (Action_start (Some ''fill_form_field'') (0 + 1) 1) #
                  concat (map (exhausted 10000) (field_selectors ''email'')))"
    unfolding blank_page_finds_nothing email_selectors by simp
  from field_not_found_warns [OF a s f, THEN conjunct1] show ?thesis .
qed

text \<open>
  On a page where nothing shows, the run of a single \<open>fill_form_field\<close> step has a
  Warning event, an \<open>action_complete\<close> event and no \<open>error\<close> event.
\<close>

theorem field_not_found_warns_counterexample:
  "run_action_plan (session_on blank_page) [field_step ''email'' ''user@example.org''] =
     ([],
      [Sent (Status (Text ''Browser initialized'') ''ready''),
       Sent (Action_start (Some ''fill_form_field'') 1 1)] @
      concat (map (exhausted 10000) (field_selectors ''email'')) @
      [Sent (Warning (Field_not_found ''email'')),
       Sent (Action_complete (Some ''fill_form_field'')),
       Sent (Status (Text ''Task completed'') ''completed''),
       Slept 1, Browser_closed]) \<and>
   errors (snd (run_action_plan (session_on blank_page)
                  [field_step ''email'' ''user@example.org''])) = []"
proof -
  have find: "find_selector_with_retry blank_page (join_comma (field_selectors ''email''))
                10000 h =
              (None, h @ concat (map (exhausted 10000) (field_selectors ''email'')))" for h
    unfolding blank_page_finds_nothing email_selectors by simp
  have run: "run_action_plan (session_on blank_page) [field_step ''email'' ''user@example.org''] =
     ([],
      [Sent (Status (Text ''Browser initialized'') ''ready''),
       Sent (Action_start (Some ''fill_form_field'') 1 1)] @
      concat (map (exhausted 10000) (field_selectors ''email'')) @
      [Sent (Warning (Field_not_found ''email'')),
       Sent (Action_complete (Some ''fill_form_field'')),
       Sent (Status (Text ''Task completed'') ''completed''),
       Slept 1, Browser_closed])"
    by (simp add: run_action_plan_def dispatch_def no_items_def handle_fill_form_field_def
        plan_defs send_event_def Let_def find or_empty_def)
  show ?thesis
    unfolding run by (simp add: field_selectors_def exhausted_def)
qed

text \<open>
  Claim C10. When the resolver finds an element for any of the four candidate selectors of
  a \<open>fill_form_field\<close> step, the handler fills \<open>input[name='<field_name>']\<close>, the first
  candidate, whatever candidate resolved; the element found does not appear in what the
  handler does. The handler raises exactly when that fill raises.
\<close>

theorem fill_goes_to_first_candidate:
  assumes "step_field_name st = Some f"
    and "find_selector_with_retry pg (join_comma (field_selectors f)) 10000 h = (Some el, h1)"
    and "v = (if or_empty (step_value st) = [] \<or> step_generate_if_needed st
              then generated_value rnd f h else or_empty (step_value st))"
    and "target = ''input[name='' @ [CHR 0x27] @ f @ [CHR 0x27] @ '']''"
  shows "handle_fill_form_field rnd pg st h =
           (fill_answer pg h1 target v None,
            h1 @ Fill target v None (fill_answer pg h1 target v None = None) #
                 (if fill_answer pg h1 target v None = None
                  then [Sent (Action ''fill_form_field'' None (Filled_field f))] else []))"
proof -
  have t: "field_selectors f ! 0 = target"
    by (simp add: field_selectors_def assms(4))
  show ?thesis
    using assms(1,2) t
    by (cases "fill_answer pg h1 target v None")
       (simp_all add: handle_fill_form_field_def Let_def fill_def send_event_def
          assms(3) [symmetric])
qed

text \<open>
  Only \<open>input[id='email']\<close> shows: the resolver succeeds on the second candidate, the
  fill goes to \<open>input[name='email']\<close> and raises, and so does the handler.
\<close>

theorem fill_goes_to_first_candidate_witness:
  "handle_fill_form_field fixed_random page_with_id_only
     (field_step ''email'' ''user@example.org'') [] =
     (Some (Exception (Text ''no element matches'')),
      exhausted 10000 ''input[name='email']'' @
      [Wait_for_selector ''input[id='email']'' 10000 True,
       Fill ''input[name='email']'' ''user@example.org'' None False])"
proof -
  let ?st = "field_step ''email'' ''user@example.org''"
  have a: "step_field_name ?st = Some ''email''" by (simp add: plan_defs)
  have never: "\<forall>i<1. \<forall>h'. isl (wait_for_selector_answer page_with_id_only h'
                  (field_selectors ''email'' ! i) 10000)"
    by (simp add: page_with_id_only_def page_showing_def field_selectors_def)
  have visible: "wait_for_selector_answer page_with_id_only
       ([] @ concat (map (exhausted 10000) (take 1 (field_selectors ''email''))))
       (field_selectors ''email'' ! 1) 10000 = Inr 7"
    by (simp add: page_with_id_only_def page_showing_def field_selectors_def)
  have f: "find_selector_with_retry page_with_id_only (join_comma (field_selectors ''email''))
             10000 [] =
           (Some 7, exhausted 10000 ''input[name='email']'' @
                    [Wait_for_selector ''input[id='email']'' 10000 True])"
    unfolding find_selector_with_retry_def email_selectors
    using try_selectors_first_visible [of 1 "field_selectors ''email''" page_with_id_only 10000
        "[]" 7, OF _ never visible]
    by (simp add: field_selectors_def)
  have v: "''user@example.org'' =
      (if or_empty (step_value ?st) = [] \<or> step_generate_if_needed ?st
       then generated_value fixed_random ''email'' [] else or_empty (step_value ?st))"
    by (simp add: plan_defs or_empty_def)
  have t: "''input[name='email']'' = ''input[name='' @ [CHR 0x27] @ ''email'' @ [CHR 0x27] @ '']''"
    by simp
  from fill_goes_to_first_candidate [OF a f v t]
  show ?thesis by (simp add: page_with_id_only_def)
qed

end
